theory Spec2Isabelle
  imports Main
begin

section \<open>The documentation downloader (docs-downloader.js)\<close>

text \<open>
  A shallow embedding of \<^verbatim>\<open>src/docs-downloader.js\<close>. An exception is a value: a thrown
  \<^verbatim>\<open>Error\<close> is the string of its \<^verbatim>\<open>message\<close>, and a function that may throw returns
  \<open>string + 'a\<close> with \<open>Inl\<close> the message. Everything outside the script (the browser
  driven through Playwright, the network, the clock) is an explicit world that every
  operation takes and returns. Every awaited promise is taken to settle, with a value or
  with an error. A promise that is never awaited may reject with nothing to handle the
  rejection, and Node then ends the process; the world records it. Console output is
  not modelled.
\<close>

subsection \<open>The world\<close>

type_synonym buffer = string

text \<open>\<^verbatim>\<open>const launchOptions = { headless: runHeadless }\<close>, with \<^verbatim>\<open>slowMo\<close> when it is set.\<close>

record launchOptions =
  headless :: bool
  slowMo :: "nat option"

text \<open>
  \<open>fs\<close> holds the regular files by path, \<open>slept\<close> the delays (in milliseconds) of the
  \<^verbatim>\<open>setTimeout\<close> waits already awaited, in order, \<open>launched\<close> the number of calls of
  \<^verbatim>\<open>chromium.launch\<close> and \<open>launches\<close> the options of each, in order. \<open>abandoned\<close> counts
  the promises that the script has created and will never await, \<open>exited\<close> says that the
  process has ended (Node ends it when a promise rejects and nothing handles the
  rejection), and \<open>ext\<close> is the state of everything else (browser, network), which only the
  operations of the environment read and change.
\<close>

record 'e world =
  fs :: "string \<rightharpoonup> buffer"
  slept :: "nat list"
  launched :: nat
  launches :: "launchOptions list"
  abandoned :: nat
  exited :: bool
  ext :: 'e

definition sleep :: "nat \<Rightarrow> 'e world \<Rightarrow> 'e world" where
  "sleep ms w = w\<lparr>slept := slept w @ [ms]\<rparr>"

type_synonym ('e, 'a) action = "'e world \<Rightarrow> (string + 'a) \<times> 'e world"

subsection \<open>Numbers in template strings\<close>

definition digit_char :: "nat \<Rightarrow> char" where
  "digit_char d = ''0123456789'' ! d"

fun show_nat :: "nat \<Rightarrow> string" where
  "show_nat n = (if n < 10 then [digit_char n] else show_nat (n div 10) @ [digit_char (n mod 10)])"

declare show_nat.simps [simp del]

subsection \<open>withRetry\<close>

text \<open>
  \<^verbatim>\<open>const MAX_RETRIES = 1;\<close> is the default of \<^verbatim>\<open>retryCount\<close>; every call in the script
  uses it. \<^verbatim>\<open>retryCount\<close> is a number of retries, a natural number.
\<close>

definition MAX_RETRIES :: nat where
  "MAX_RETRIES = 1"

text \<open>\<^verbatim>\<open>Math.min(1000 * Math.pow(2, attempt), 10000)\<close>\<close>

definition backoff :: "nat \<Rightarrow> nat" where
  "backoff attempt = min (1000 * 2 ^ attempt) 10000"

text \<open>
  The \<^verbatim>\<open>for (let attempt = 0; attempt <= retryCount; attempt++)\<close> loop, entered at
  \<open>attempt\<close> with \<open>lastError\<close> (\<open>None\<close> is \<^verbatim>\<open>undefined\<close>). A successful action returns
  from the function; a failed one is remembered and, unless it was the last attempt,
  followed by the backoff wait. After the loop the aggregate error is thrown; reading
  \<^verbatim>\<open>lastError.message\<close> of \<^verbatim>\<open>undefined\<close> would be a TypeError.
\<close>

definition undefined_message_TypeError :: string where
  "undefined_message_TypeError = ''Cannot read properties of undefined (reading 'message')''"

function withRetry_loop ::
  "('e, 'a) action \<Rightarrow> string \<Rightarrow> nat \<Rightarrow> nat \<Rightarrow> string option \<Rightarrow> 'e world \<Rightarrow> (string + 'a) \<times> 'e world"
where
  "withRetry_loop actionFn actionName retryCount attempt lastError w =
     (if attempt \<le> retryCount then
        (case actionFn w of
           (Inr v, w1) \<Rightarrow> (Inr v, w1)
         | (Inl message, w1) \<Rightarrow>
             withRetry_loop actionFn actionName retryCount (Suc attempt) (Some message)
               (if attempt < retryCount then sleep (backoff attempt) w1 else w1))
      else
        (case lastError of
           None \<Rightarrow> (Inl undefined_message_TypeError, w)
         | Some message \<Rightarrow>
             (Inl (''All '' @ show_nat (retryCount + 1) @ '' attempts failed for '' @ actionName
                   @ '': '' @ message), w)))"
  by pat_completeness auto
termination
  by (relation "measure (\<lambda>(actionFn, actionName, retryCount, attempt, lastError, w). Suc retryCount - attempt)") auto

declare withRetry_loop.simps [simp del]

definition withRetry :: "('e, 'a) action \<Rightarrow> string \<Rightarrow> nat \<Rightarrow> 'e world \<Rightarrow> (string + 'a) \<times> 'e world" where
  "withRetry actionFn actionName retryCount w = withRetry_loop actionFn actionName retryCount 0 None w"

text \<open>
  An action whose \<open>i\<close>-th invocation (from 0) has the outcome \<open>f i\<close>, on a world whose
  \<open>ext\<close> counts the invocations made so far.
\<close>

definition scripted :: "(nat \<Rightarrow> string + 'a) \<Rightarrow> (nat, 'a) action" where
  "scripted f w = (f (ext w), w\<lparr>ext := Suc (ext w)\<rparr>)"

text \<open>
  A process at its start: an empty file system, nothing waited for, no browser launched,
  no promise abandoned.
\<close>

definition world0 :: "'e \<Rightarrow> 'e world" where
  "world0 e =
     \<lparr>fs = Map.empty, slept = [], launched = 0, launches = [], abandoned = 0, exited = False, ext = e\<rparr>"

subsection \<open>Playwright, https and fs as an environment\<close>

text \<open>
  Browsers, contexts and pages are handles. Every operation of the libraries is a field
  of the environment \<open>env\<close>: it reads the external state \<open>'e\<close> and returns its outcome
  with the new state. A rejected promise is \<open>Inl\<close> of the error's message.
  \<open>unhandled_rejection\<close> tells whether, in this state, a promise that the script has
  abandoned has rejected. The script is verified for every environment.
\<close>

type_synonym handle = nat

record book =
  title :: string
  url :: string

text \<open>
  What \<^verbatim>\<open>https.get\<close> leads to: an \<^verbatim>\<open>'error'\<close> event of the request, an exception thrown by
  the call itself (an address that is not a valid \<^verbatim>\<open>https:\<close> address), or a response with
  its status code whose body is either all its chunks up to \<^verbatim>\<open>'end'\<close> or an \<^verbatim>\<open>'error'\<close>
  event of the response.
\<close>

datatype response_body = Body "buffer list" | StreamError string

datatype http_outcome = RequestError string | GetThrows string | Response nat response_body

text \<open>
  What \<^verbatim>\<open>fs.writeFile(path, buffer)\<close> leads to: the whole buffer is in the file, or the call
  fails with a message. A call that fails before the file is opened leaves the file system
  as it was (\<open>None\<close>); one that fails later has created or truncated the file and written
  the first \<open>n\<close> bytes of the buffer (\<open>Some n\<close>, where \<open>n\<close> may be 0).
\<close>

datatype write_outcome = Written | WriteFailed string "nat option"

record fs_error =
  err_code :: string
  err_message :: string

record 'e env =
  launch :: "launchOptions \<Rightarrow> 'e \<Rightarrow> (string + handle) \<times> 'e"
  newContext :: "handle \<Rightarrow> 'e \<Rightarrow> (string + handle) \<times> 'e"
  addCookies :: "handle \<Rightarrow> 'e \<Rightarrow> (string + unit) \<times> 'e"
  newPage :: "handle \<Rightarrow> 'e \<Rightarrow> (string + handle) \<times> 'e"
  goto :: "handle \<Rightarrow> string \<Rightarrow> 'e \<Rightarrow> (string + unit) \<times> 'e"
  waitForSelector :: "handle \<Rightarrow> string \<Rightarrow> 'e \<Rightarrow> (string + unit) \<times> 'e"
  evaluate_tiles :: "handle \<Rightarrow> 'e \<Rightarrow> (string + book list) \<times> 'e"
  content :: "handle \<Rightarrow> 'e \<Rightarrow> (string + string) \<times> 'e"
  waitForEvent_page :: "handle \<Rightarrow> 'e \<Rightarrow> (string + handle) \<times> 'e"
  selectOption :: "handle \<Rightarrow> string \<Rightarrow> string \<Rightarrow> 'e \<Rightarrow> (string + unit) \<times> 'e"
  waitForURL :: "handle \<Rightarrow> 'e \<Rightarrow> (string + unit) \<times> 'e"
  waitForLoadState :: "handle \<Rightarrow> 'e \<Rightarrow> (string + unit) \<times> 'e"
  page_url :: "handle \<Rightarrow> 'e \<Rightarrow> string"
  isClosed :: "handle \<Rightarrow> 'e \<Rightarrow> bool"
  page_close :: "handle \<Rightarrow> 'e \<Rightarrow> (string + unit) \<times> 'e"
  context_close :: "handle \<Rightarrow> 'e \<Rightarrow> (string + unit) \<times> 'e"
  browser_close :: "handle \<Rightarrow> 'e \<Rightarrow> (string + unit) \<times> 'e"
  https_get :: "string \<Rightarrow> 'e \<Rightarrow> http_outcome \<times> 'e"
  mkdir :: "string \<Rightarrow> 'e \<Rightarrow> fs_error option \<times> 'e"
  writeFile_outcome :: "string \<Rightarrow> buffer \<Rightarrow> 'e \<Rightarrow> write_outcome \<times> 'e"
  unhandled_rejection :: "'e \<Rightarrow> bool"

text \<open>An operation of the environment as an action on the world.\<close>

definition lift :: "('e \<Rightarrow> (string + 'a) \<times> 'e) \<Rightarrow> ('e, 'a) action" where
  "lift operation w = (case operation (ext w) of (r, e) \<Rightarrow> (r, w\<lparr>ext := e\<rparr>))"

text \<open>\<^verbatim>\<open>await x.close().catch(e => console.warn(...))\<close>: the rejection is swallowed.\<close>

definition swallow :: "('e \<Rightarrow> (string + unit) \<times> 'e) \<Rightarrow> 'e world \<Rightarrow> 'e world" where
  "swallow operation w = w\<lparr>ext := snd (operation (ext w))\<rparr>"

subsection \<open>downloadPdf\<close>

text \<open>
  The characters of the class in the regular expression of \<^verbatim>\<open>downloadPdf\<close>: slash,
  backslash, colon, asterisk, question mark, double quote, less-than, greater-than and
  vertical bar.
\<close>

definition illegal_chars :: "char list" where
  "illegal_chars = [CHR ''/'', CHR 0x5C, CHR '':'', CHR ''*'', CHR ''?'', CHR 0x22, CHR ''<'', CHR ''>'', CHR ''|'']"

text \<open>\<^verbatim>\<open>title.replace(/[...]/g, '_')\<close>: every character of the class becomes an underscore.\<close>

definition sanitize :: "string \<Rightarrow> string" where
  "sanitize s = map (\<lambda>c. if c \<in> set illegal_chars then CHR ''_'' else c) s"

text \<open>
  \<^verbatim>\<open>path.join('downloads', `${sanitizedTitle}.pdf`)\<close> on a POSIX system. The second segment
  holds no separator once sanitized and, ending in \<^verbatim>\<open>.pdf\<close>, is neither empty nor a dot
  segment, so the normalisation of \<^verbatim>\<open>path.join\<close> leaves the joined path as it is.
\<close>

definition path_join :: "string \<Rightarrow> string \<Rightarrow> string" where
  "path_join dir name = dir @ ''/'' @ name"

text \<open>
  \<^verbatim>\<open>fs.writeFile(filePath, buffer)\<close>: the environment decides the outcome; a write that
  succeeds stores the whole buffer, a write that fails leaves what its outcome says.
\<close>

definition writeFile :: "'e env \<Rightarrow> string \<Rightarrow> buffer \<Rightarrow> ('e, unit) action" where
  "writeFile env filePath buffer w =
     (case writeFile_outcome env filePath buffer (ext w) of
        (Written, e) \<Rightarrow> (Inr (), w\<lparr>fs := (fs w)(filePath \<mapsto> buffer), ext := e\<rparr>)
      | (WriteFailed message None, e) \<Rightarrow> (Inl message, w\<lparr>ext := e\<rparr>)
      | (WriteFailed message (Some n), e) \<Rightarrow>
          (Inl message, w\<lparr>fs := (fs w)(filePath \<mapsto> take n buffer), ext := e\<rparr>))"

text \<open>
  The promise of \<^verbatim>\<open>downloadPdf\<close>, by the event that settles it. An exception thrown by
  \<^verbatim>\<open>https.get\<close> inside the executor of the promise rejects it with that error. The inner
  \<^verbatim>\<open>try { await fs.mkdir(...) } catch (err) { if (err.code !== 'EEXIST') throw err; }\<close>
  rethrows into the outer \<^verbatim>\<open>catch\<close>, which rejects with the "Error writing" message, as
  a failed write does.
\<close>

definition downloadPdf :: "'e env \<Rightarrow> string \<Rightarrow> string \<Rightarrow> ('e, string) action" where
  "downloadPdf env pdf_url pdf_title w =
     (let sanitizedTitle = sanitize pdf_title;
          filePath = path_join ''downloads'' (sanitizedTitle @ ''.pdf'')
      in case https_get env pdf_url (ext w) of
           (RequestError message, e1) \<Rightarrow>
             (Inl (''HTTPS error for PDF '' @ pdf_title @ '': '' @ message), w\<lparr>ext := e1\<rparr>)
         | (GetThrows message, e1) \<Rightarrow> (Inl message, w\<lparr>ext := e1\<rparr>)
         | (Response statusCode body, e1) \<Rightarrow>
             if statusCode \<noteq> 200 then
               (Inl (''Failed to download PDF. Status code: '' @ show_nat statusCode @ '' for '' @ pdf_url),
                w\<lparr>ext := e1\<rparr>)
             else
               (case body of
                  StreamError message \<Rightarrow>
                    (Inl (''HTTPS request error for PDF '' @ pdf_title @ '': '' @ message), w\<lparr>ext := e1\<rparr>)
                | Body chunks \<Rightarrow>
                    let buffer = concat chunks in
                    if length buffer = 0 then
                      (Inl (''Downloaded PDF for '' @ pdf_title @ '' is empty.''), w\<lparr>ext := e1\<rparr>)
                    else
                      (case mkdir env ''downloads'' e1 of
                         (made, e2) \<Rightarrow>
                           (case (case made of
                                    None \<Rightarrow> None
                                  | Some err \<Rightarrow> if err_code err \<noteq> ''EEXIST'' then Some err else None) of
                              Some rethrown \<Rightarrow>
                                (Inl (''Error writing PDF file for '' @ pdf_title @ '': ''
                                      @ err_message rethrown), w\<lparr>ext := e2\<rparr>)
                            | None \<Rightarrow>
                                (case writeFile env filePath buffer (w\<lparr>ext := e2\<rparr>) of
                                   (Inl message, w3) \<Rightarrow>
                                     (Inl (''Error writing PDF file for '' @ pdf_title @ '': '' @ message), w3)
                                 | (Inr _, w3) \<Rightarrow> (Inr filePath, w3))))))"

text \<open>\<^verbatim>\<open>`${productName}-${productVersion}-${book.title}`\<close>\<close>

definition downloadTitle :: "string \<Rightarrow> string \<Rightarrow> book \<Rightarrow> string" where
  "downloadTitle productName productVersion b = productName @ ''-'' @ productVersion @ ''-'' @ title b"

subsection \<open>Launching\<close>

text \<open>
  \<^verbatim>\<open>const launchOptions = { headless: runHeadless };\<close>
  \<^verbatim>\<open>if (!runHeadless) { launchOptions.slowMo = 1000; ... }\<close>
\<close>

definition mk_launchOptions :: "bool \<Rightarrow> launchOptions" where
  "mk_launchOptions runHeadless =
     (if \<not> runHeadless then \<lparr>headless = runHeadless, slowMo = Some 1000\<rparr>
      else \<lparr>headless = runHeadless, slowMo = None\<rparr>)"

subsection \<open>The regular expression of the headless mode\<close>

definition backslash :: char where
  "backslash = CHR 0x5C"

definition double_quote :: char where
  "double_quote = CHR 0x22"

text \<open>
  The characters of the class in \<^verbatim>\<open>productName.replace(/[...]/g, '\\$&')\<close>: the fourteen
  syntax characters of a pattern (dot, asterisk, plus, question mark, caret, dollar,
  braces, parentheses, vertical bar, brackets and backslash).
\<close>

definition syntax_chars :: "char list" where
  "syntax_chars = ''.*+?^${}()|[]'' @ [backslash]"

text \<open>The replacement \<^verbatim>\<open>'\\$&'\<close>: a backslash, then the character matched.\<close>

definition escapeRegExp :: "string \<Rightarrow> string" where
  "escapeRegExp s = concat (map (\<lambda>c. if c \<in> set syntax_chars then [backslash, c] else [c]) s)"

text \<open>
  The source text of the pattern, as the template literal builds it: an opening
  parenthesis, the address of the documentation host with its dots escaped, the escaped
  product name and version between slashes, the directory \<^verbatim>\<open>pdf\<close>, one or more
  characters other than a double quote, an escaped dot, \<^verbatim>\<open>pdf\<close> and the closing
  parenthesis.
\<close>

definition pdfLink_source :: "string \<Rightarrow> string \<Rightarrow> string" where
  "pdfLink_source escapedProductName escapedProductVersion =
     ''(https://docs'' @ [backslash] @ ''.redhat'' @ [backslash] @ ''.com/en/documentation/''
     @ escapedProductName @ ''/'' @ escapedProductVersion
     @ ''/pdf/[^'' @ [double_quote] @ '']+'' @ [backslash] @ ''.pdf)''"

text \<open>
  \<^verbatim>\<open>new RegExp(source, "i")\<close> for the part of the pattern syntax that the script can
  produce: a sequence of literal characters, of syntax characters (or a slash) escaped
  by a backslash, and of classes \<^verbatim>\<open>[^c]+\<close> of one excluded character \<open>c\<close> repeated once or
  more, all inside one capture group. Any other source is outside the model and is
  \<open>None\<close>.
\<close>

datatype atom = Lit char | PlusNot char

function parse_atoms :: "string \<Rightarrow> atom list option" where
  "parse_atoms [] = Some []"
| "parse_atoms (c # cs) =
     (if c = backslash then
        (case cs of
           [] \<Rightarrow> None
         | d # ds \<Rightarrow>
             if d \<in> set syntax_chars \<or> d = CHR ''/'' then map_option ((#) (Lit d)) (parse_atoms ds)
             else None)
      else if c = CHR ''['' then
        (if length cs \<ge> 4 \<and> cs ! 0 = CHR ''^'' \<and> cs ! 1 \<notin> set syntax_chars \<and> cs ! 1 \<noteq> CHR ''-''
            \<and> cs ! 2 = CHR '']'' \<and> cs ! 3 = CHR ''+''
         then map_option ((#) (PlusNot (cs ! 1))) (parse_atoms (drop 4 cs))
         else None)
      else if c \<in> set syntax_chars then None
      else map_option ((#) (Lit c)) (parse_atoms cs))"
  by pat_completeness auto
termination
  by (relation "measure length") auto

definition RegExp_i :: "string \<Rightarrow> atom list option" where
  "RegExp_i source =
     (if length source \<ge> 2 \<and> hd source = CHR ''('' \<and> last source = CHR '')''
      then parse_atoms (butlast (tl source)) else None)"

text \<open>
  Matching ignores case (the flag \<^verbatim>\<open>i\<close>): two characters match when their
  canonical forms are equal. The model canonicalises the letters of ASCII and leaves
  every other character as it is. JavaScript also folds letters outside ASCII with one
  another, but never one of them with a character of ASCII; so the model matches as the
  script does where the pattern is ASCII, that is, where the product name and version
  are.
\<close>

definition canonicalize :: "char \<Rightarrow> char" where
  "canonicalize c =
     (case map_of (zip ''abcdefghijklmnopqrstuvwxyz'' ''ABCDEFGHIJKLMNOPQRSTUVWXYZ'') c of
        Some u \<Rightarrow> u
      | None \<Rightarrow> c)"

text \<open>The first defined element of a list of alternatives, tried in order.\<close>

fun first_some :: "'a option list \<Rightarrow> 'a option" where
  "first_some [] = None"
| "first_some (None # xs) = first_some xs"
| "first_some (Some x # xs) = Some x"

text \<open>
  The backtracking matcher: the length of the match of the atoms at the start of the
  string, if there is one. \<open>PlusNot\<close> is greedy: it first takes every character up to
  the next excluded one, then gives characters back one at a time, down to one, until
  the rest of the atoms match.
\<close>

fun match_here :: "atom list \<Rightarrow> string \<Rightarrow> nat option" where
  "match_here [] s = Some 0"
| "match_here (Lit c # atoms) s =
     (case s of
        [] \<Rightarrow> None
      | d # ds \<Rightarrow> if canonicalize d = canonicalize c then map_option Suc (match_here atoms ds) else None)"
| "match_here (PlusNot c # atoms) s =
     (let n = length (takeWhile (\<lambda>d. canonicalize d \<noteq> canonicalize c) s)
      in first_some (map (\<lambda>k. map_option ((+) k) (match_here atoms (drop k s))) (rev [1..<Suc n])))"

text \<open>
  \<^verbatim>\<open>pageContent.match(pdfLinkRegex)\<close> without the flag \<^verbatim>\<open>g\<close>: the leftmost match; the group
  spans the whole pattern, so \<^verbatim>\<open>match[1]\<close> is the text matched.
\<close>

fun regex_match :: "atom list \<Rightarrow> string \<Rightarrow> string option" where
  "regex_match atoms [] = map_option (\<lambda>n. []) (match_here atoms [])"
| "regex_match atoms (c # cs) =
     (case match_here atoms (c # cs) of
        Some n \<Rightarrow> Some (take n (c # cs))
      | None \<Rightarrow> regex_match atoms cs)"

text \<open>
  The headless branch of the per-book \<^verbatim>\<open>try\<close> block: read the markup of the page,
  build the expression, take the first match or throw.
\<close>

definition invalid_RegExp_SyntaxError :: string where
  "invalid_RegExp_SyntaxError = ''Invalid regular expression''"

definition locate_headless ::
  "'e env \<Rightarrow> string \<Rightarrow> string \<Rightarrow> handle \<Rightarrow> book \<Rightarrow> ('e, string) action"
where
  "locate_headless env productName productVersion bookPage b w =
     (case lift (content env bookPage) w of
        (Inl message, w1) \<Rightarrow> (Inl message, w1)
      | (Inr pageContent, w1) \<Rightarrow>
          let escapedProductName = escapeRegExp productName;
              escapedProductVersion = escapeRegExp productVersion
          in case RegExp_i (pdfLink_source escapedProductName escapedProductVersion) of
               None \<Rightarrow> (Inl invalid_RegExp_SyntaxError, w1)
             | Some pdfLinkRegex \<Rightarrow>
                 (case regex_match pdfLinkRegex pageContent of
                    Some m \<Rightarrow>
                      if m \<noteq> [] then (Inr m, w1)
                      else (Inl (''Regex failed to find specific PDF link for '' @ title b @ ''.''), w1)
                  | None \<Rightarrow>
                      (Inl (''Regex failed to find specific PDF link for '' @ title b @ ''.''), w1)))"

subsection \<open>The result ledger and the session\<close>

text \<open>
  An element of \<^verbatim>\<open>downloadResults\<close>: the fields of the book (\<^verbatim>\<open>...book\<close>) and the outcome.
  \<open>None\<close> is \<^verbatim>\<open>null\<close> for \<open>pdfUrl\<close> and \<open>downloadPath\<close>, and an absent field for \<open>error\<close>
  and \<open>criticalError\<close>, which only a failure has.
\<close>

record bookResult = book +
  pdfUrl :: "string option"
  downloadPath :: "string option"
  success :: bool
  error :: "string option"
  criticalError :: "bool option"

text \<open>The variables \<^verbatim>\<open>browser\<close> and \<^verbatim>\<open>context\<close> of the script; \<open>None\<close> is \<^verbatim>\<open>null\<close>.\<close>

record session =
  browser :: "handle option"
  browserContext :: "handle option"

text \<open>\<^verbatim>\<open>message.includes(pattern)\<close>\<close>

fun starts_with :: "string \<Rightarrow> string \<Rightarrow> bool" where
  "starts_with s [] = True"
| "starts_with [] (p # ps) = False"
| "starts_with (c # cs) (p # ps) = (c = p \<and> starts_with cs ps)"

fun includes_str :: "string \<Rightarrow> string \<Rightarrow> bool" where
  "includes_str [] pattern = starts_with [] pattern"
| "includes_str (c # cs) pattern = (starts_with (c # cs) pattern \<or> includes_str cs pattern)"

definition criticalErrorPatterns :: "string list" where
  "criticalErrorPatterns =
     [''Object with guid'', ''not bound in the connection'', ''has been closed'', ''Target closed'',
      ''Navigation failed'', ''context has been destroyed'']"

definition isCriticalError :: "string \<Rightarrow> bool" where
  "isCriticalError message = list_ex (\<lambda>pattern. includes_str message pattern) criticalErrorPatterns"

text \<open>The TypeError of \<^verbatim>\<open>context.newPage()\<close> when \<^verbatim>\<open>context\<close> is \<^verbatim>\<open>null\<close>.\<close>

definition null_newPage_TypeError :: string where
  "null_newPage_TypeError = ''Cannot read properties of null (reading 'newPage')''"

text \<open>\<^verbatim>\<open>if (page && !page.isClosed()) await page.close().catch(...)\<close>\<close>

definition close_if_open :: "'e env \<Rightarrow> handle option \<Rightarrow> 'e world \<Rightarrow> 'e world" where
  "close_if_open env page w =
     (case page of
        None \<Rightarrow> w
      | Some p \<Rightarrow> if \<not> isClosed env p (ext w) then swallow (page_close env p) w else w)"

subsection \<open>Processing one book\<close>

text \<open>
  The headed branch of the per-book \<^verbatim>\<open>try\<close> block. The second component is the
  variable \<^verbatim>\<open>newPageForPdf\<close> at the point where the block is left. The promise of
  \<^verbatim>\<open>context.waitForEvent('page')\<close> is created before the selection and awaited after
  it; its outcome is read where it is awaited. When the selection fails, the error is
  thrown past the \<^verbatim>\<open>await\<close>: the promise is abandoned, and the world counts it. The inner
  \<^verbatim>\<open>catch\<close> rethrows.
\<close>

definition locate_headed ::
  "'e env \<Rightarrow> handle \<Rightarrow> handle \<Rightarrow> book \<Rightarrow> 'e world \<Rightarrow> (string + string) \<times> handle option \<times> 'e world"
where
  "locate_headed env ctx bookPage b w =
     (case withRetry (lift (waitForSelector env bookPage ''#page-format''))
             (''waiting for format dropdown on '' @ title b @ '' page'') MAX_RETRIES w of
        (Inl message, w1) \<Rightarrow> (Inl message, None, w1)
      | (Inr _, w1) \<Rightarrow>
     (case withRetry (lift (selectOption env bookPage ''#page-format'' ''pdf''))
             (''selecting PDF format for '' @ title b) MAX_RETRIES w1 of
        (Inl message, w2) \<Rightarrow> (Inl message, None, w2\<lparr>abandoned := Suc (abandoned w2)\<rparr>)
      | (Inr _, w2) \<Rightarrow>
     (case lift (waitForEvent_page env ctx) w2 of
        (Inl message, w3) \<Rightarrow> (Inl message, None, w3)
      | (Inr newPageForPdf, w3) \<Rightarrow>
     (case withRetry (lift (waitForURL env newPageForPdf))
             (''waiting for new page to reach PDF URL for '' @ title b) MAX_RETRIES w3 of
        (Inl message, w4) \<Rightarrow> (Inl message, Some newPageForPdf, w4)
      | (Inr _, w4) \<Rightarrow>
          let foundUrl = page_url env newPageForPdf (ext w4) in
     (case withRetry (lift (waitForLoadState env newPageForPdf))
             (''waiting for PDF content 'load' state for '' @ title b) MAX_RETRIES w4 of
        (Inl message, w5) \<Rightarrow> (Inl message, Some newPageForPdf, w5)
      | (Inr _, w5) \<Rightarrow> (Inr foundUrl, Some newPageForPdf, w5))))))"

text \<open>
  The per-book \<^verbatim>\<open>try\<close> block: its outcome (the error thrown, or \<^verbatim>\<open>pdfUrl\<close> and
  \<^verbatim>\<open>downloadPath\<close> at the \<^verbatim>\<open>push\<close> of the success), and the variables \<^verbatim>\<open>bookPage\<close> and
  \<^verbatim>\<open>newPageForPdf\<close> as the handlers find them. An empty string is falsy, so
  \<^verbatim>\<open>if (!pdfUrl)\<close> throws on it.
\<close>

definition book_try ::
  "'e env \<Rightarrow> bool \<Rightarrow> string \<Rightarrow> string \<Rightarrow> session \<Rightarrow> book \<Rightarrow> 'e world \<Rightarrow>
   (string + string \<times> string) \<times> handle option \<times> handle option \<times> 'e world"
where
  "book_try env runHeadless productName productVersion s b w =
     (case browserContext s of
        None \<Rightarrow> (Inl null_newPage_TypeError, None, None, w)
      | Some ctx \<Rightarrow>
     (case lift (newPage env ctx) w of
        (Inl message, w1) \<Rightarrow> (Inl message, None, None, w1)
      | (Inr bookPage, w1) \<Rightarrow>
     (case withRetry (lift (goto env bookPage (url b)))
             (''navigation to '' @ title b @ '' HTML page'') MAX_RETRIES w1 of
        (Inl message, w2) \<Rightarrow> (Inl message, Some bookPage, None, w2)
      | (Inr _, w2) \<Rightarrow>
     (case (if runHeadless
            then (case locate_headless env productName productVersion bookPage b w2 of
                    (located, w3) \<Rightarrow> (located, None, w3))
            else locate_headed env ctx bookPage b w2) of
        (Inl message, newPageForPdf, w3) \<Rightarrow> (Inl message, Some bookPage, newPageForPdf, w3)
      | (Inr foundUrl, newPageForPdf, w3) \<Rightarrow>
          if foundUrl = [] then
            (Inl (''No PDF URL could be determined for '' @ title b @ ''.''),
             Some bookPage, newPageForPdf, w3)
          else
     (case withRetry (downloadPdf env foundUrl (downloadTitle productName productVersion b))
             (''downloading PDF for '' @ title b) MAX_RETRIES w3 of
        (Inl message, w4) \<Rightarrow> (Inl message, Some bookPage, newPageForPdf, w4)
      | (Inr savedPath, w4) \<Rightarrow>
          (Inr (foundUrl, savedPath), Some bookPage, newPageForPdf, w4))))))"

text \<open>
  The clean-up of a critical error: close both pages, the context and the browser, each
  failure swallowed, then \<^verbatim>\<open>browser = null; context = null;\<close>.
\<close>

definition teardown :: "'e env \<Rightarrow> session \<Rightarrow> handle option \<Rightarrow> handle option \<Rightarrow> 'e world \<Rightarrow> 'e world" where
  "teardown env s bookPage newPageForPdf w =
     (let w1 = close_if_open env bookPage w;
          w2 = close_if_open env newPageForPdf w1;
          w3 = (case browserContext s of None \<Rightarrow> w2 | Some c \<Rightarrow> swallow (context_close env c) w2);
          w4 = (case browser s of None \<Rightarrow> w3 | Some b \<Rightarrow> swallow (browser_close env b) w3)
      in w4)"

text \<open>
  One iteration of the loop over \<^verbatim>\<open>books\<close>: the \<^verbatim>\<open>try\<close> block, the \<^verbatim>\<open>catch\<close> that
  classifies the error and records the failure, the \<^verbatim>\<open>finally\<close> that closes the pages,
  and the pause of the headed mode. It returns the session variables, the result pushed
  and the world.
\<close>

definition processBook ::
  "'e env \<Rightarrow> bool \<Rightarrow> string \<Rightarrow> string \<Rightarrow> book \<Rightarrow> session \<Rightarrow> 'e world \<Rightarrow> session \<times> bookResult \<times> 'e world"
where
  "processBook env runHeadless productName productVersion b s w =
     (case book_try env runHeadless productName productVersion s b w of
        (outcome, bookPage, newPageForPdf, w1) \<Rightarrow>
          (case (case outcome of
                   Inr (foundUrl, savedPath) \<Rightarrow>
                     (s,
                      \<lparr>title = title b, url = url b, pdfUrl = Some foundUrl,
                        downloadPath = Some savedPath, success = True, error = None,
                        criticalError = None\<rparr>,
                      w1)
                 | Inl message \<Rightarrow>
                     (let critical = isCriticalError message;
                          restart = critical \<and> browser s \<noteq> None
                      in (if restart then \<lparr>browser = None, browserContext = None\<rparr> else s,
                          \<lparr>title = title b, url = url b, pdfUrl = None, downloadPath = None,
                            success = False, error = Some message, criticalError = Some critical\<rparr>,
                          if restart then teardown env s bookPage newPageForPdf w1 else w1))) of
             (s', r, w2) \<Rightarrow>
               (let w3 = close_if_open env bookPage w2;
                    w4 = close_if_open env newPageForPdf w3;
                    w5 = (if \<not> runHeadless then sleep 1000 w4 else w4)
                in (s', r, w5))))"

subsection \<open>The loop over the books\<close>

text \<open>
  \<^verbatim>\<open>for (let i = 0; i < books.length; i++)\<close>, with the variables \<^verbatim>\<open>browser\<close>,
  \<^verbatim>\<open>context\<close> and \<^verbatim>\<open>downloadResults\<close> carried from one book to the next. While a promise
  is abandoned, its rejection ends the process: the model asks the environment at the end
  of each iteration whether that has happened, and then the loop stops there, with
  \<open>exited\<close> set, whatever part of the iteration the process had reached.
\<close>

fun processBooks ::
  "'e env \<Rightarrow> bool \<Rightarrow> string \<Rightarrow> string \<Rightarrow> book list \<Rightarrow> session \<Rightarrow> bookResult list \<Rightarrow> 'e world \<Rightarrow>
   session \<times> bookResult list \<times> 'e world"
where
  "processBooks env runHeadless productName productVersion [] s downloadResults w =
     (s, downloadResults, w)"
| "processBooks env runHeadless productName productVersion (b # books) s downloadResults w =
     (case processBook env runHeadless productName productVersion b s w of
        (s', r, w') \<Rightarrow>
          if 0 < abandoned w' \<and> unhandled_rejection env (ext w') then
            (s', downloadResults, w'\<lparr>exited := True\<rparr>)
          else
            processBooks env runHeadless productName productVersion books s' (downloadResults @ [r]) w')"

subsection \<open>scrapeAndDownloadDocs\<close>

text \<open>\<^verbatim>\<open>chromium.launch(launchOptions)\<close>, counted in \<open>launched\<close> and recorded in \<open>launches\<close>.\<close>

definition chromium_launch :: "'e env \<Rightarrow> launchOptions \<Rightarrow> ('e, handle) action" where
  "chromium_launch env opts w =
     lift (launch env opts) (w\<lparr>launched := Suc (launched w), launches := launches w @ [opts]\<rparr>)"

text \<open>
  The set-up at the head of the outer \<^verbatim>\<open>try\<close> block, up to the list \<^verbatim>\<open>books\<close>: launch,
  context, cookies, the listing page and its tiles. The second component holds the
  variables \<^verbatim>\<open>browser\<close> and \<^verbatim>\<open>context\<close> as assigned so far.
\<close>

definition discover ::
  "'e env \<Rightarrow> string \<Rightarrow> string \<Rightarrow> string \<Rightarrow> bool \<Rightarrow> 'e world \<Rightarrow> (string + book list) \<times> session \<times> 'e world"
where
  "discover env targetUrl productName productVersion runHeadless w =
     (case chromium_launch env (mk_launchOptions runHeadless) w of
        (Inl message, w1) \<Rightarrow> (Inl message, \<lparr>browser = None, browserContext = None\<rparr>, w1)
      | (Inr br, w1) \<Rightarrow>
     (case lift (newContext env br) w1 of
        (Inl message, w2) \<Rightarrow> (Inl message, \<lparr>browser = Some br, browserContext = None\<rparr>, w2)
      | (Inr ctx, w2) \<Rightarrow>
          let s = \<lparr>browser = Some br, browserContext = Some ctx\<rparr> in
     (case lift (addCookies env ctx) w2 of
        (Inl message, w3) \<Rightarrow> (Inl message, s, w3)
      | (Inr _, w3) \<Rightarrow>
     (case lift (newPage env ctx) w3 of
        (Inl message, w4) \<Rightarrow> (Inl message, s, w4)
      | (Inr mainProductPage, w4) \<Rightarrow>
     (case withRetry (lift (goto env mainProductPage targetUrl))
             (''navigation to main documentation page for '' @ productName @ '' '' @ productVersion)
             MAX_RETRIES w4 of
        (Inl message, w5) \<Rightarrow> (Inl message, s, w5)
      | (Inr _, w5) \<Rightarrow>
     (case withRetry (lift (waitForSelector env mainProductPage ''rh-tile''))
             ''waiting for documentation tiles to load'' MAX_RETRIES w5 of
        (Inl message, w6) \<Rightarrow> (Inl message, s, w6)
      | (Inr _, w6) \<Rightarrow>
     (case lift (evaluate_tiles env mainProductPage) w6 of
        (Inl message, w7) \<Rightarrow> (Inl message, s, w7)
      | (Inr books, w7) \<Rightarrow>
     (case lift (page_close env mainProductPage) w7 of
        (Inl message, w8) \<Rightarrow> (Inl message, s, w8)
      | (Inr _, w8) \<Rightarrow> (Inr books, s, w8)))))))))"

definition alphanumeric :: "char list" where
  "alphanumeric = ''abcdefghijklmnopqrstuvwxyz'' @ ''ABCDEFGHIJKLMNOPQRSTUVWXYZ'' @ ''0123456789''"

text \<open>
  The name of the summary file: in the product name every character that is not a
  letter or digit becomes an underscore, in the version every character that is not a
  letter, digit or dot.
\<close>

definition resultsFilename :: "string \<Rightarrow> string \<Rightarrow> string" where
  "resultsFilename productName productVersion =
     map (\<lambda>c. if c \<in> set alphanumeric then c else CHR ''_'') productName @ ''-''
     @ map (\<lambda>c. if c \<in> set alphanumeric \<or> c = CHR ''.'' then c else CHR ''_'') productVersion
     @ ''-download-results.json''"

text \<open>The outer \<^verbatim>\<open>finally\<close>: close the browser if the variable still holds one.\<close>

definition outer_finally :: "'e env \<Rightarrow> session \<Rightarrow> 'e world \<Rightarrow> 'e world" where
  "outer_finally env s w =
     (case browser s of None \<Rightarrow> w | Some b \<Rightarrow> swallow (browser_close env b) w)"

text \<open>
  The whole function. \<open>stringify\<close> stands for \<^verbatim>\<open>JSON.stringify(_, null, 2)\<close>. A failure of
  the set-up is caught by the outer \<^verbatim>\<open>catch\<close> and ends the run without a ledger; after
  the loop the ledger is written to the summary file (a failure of that write is caught)
  and counted on the console. A process that has ended in the loop does none of this:
  it leaves no ledger and no summary file. The function returns nothing in the script; the
  model returns the ledger \<^verbatim>\<open>downloadResults\<close>, if the loop was reached and completed, and
  the final world.
\<close>

definition scrapeAndDownloadDocs ::
  "'e env \<Rightarrow> (bookResult list \<Rightarrow> string) \<Rightarrow> string \<Rightarrow> string \<Rightarrow> string \<Rightarrow> bool \<Rightarrow> 'e world \<Rightarrow>
   bookResult list option \<times> 'e world"
where
  "scrapeAndDownloadDocs env stringify targetUrl productName productVersion runHeadless w =
     (case discover env targetUrl productName productVersion runHeadless w of
        (Inl message, s, w1) \<Rightarrow> (None, outer_finally env s w1)
      | (Inr books, s, w1) \<Rightarrow>
          (case processBooks env runHeadless productName productVersion books s [] w1 of
             (s', downloadResults, w2) \<Rightarrow>
               if exited w2 then (None, w2)
               else
                 (let w3 = snd (writeFile env (resultsFilename productName productVersion)
                                  (stringify downloadResults) w2)
                  in (Some downloadResults, outer_finally env s' w3))))"

subsection \<open>An environment with fixed answers\<close>

text \<open>
  For the examples: a browser whose listing page shows \<open>books\<close>, whose navigation to an
  address has the outcome \<open>nav\<close> of that address, whose pages all have the markup
  \<open>markup\<close> and the address \<open>address\<close>, and a network that answers every request with
  \<open>answer\<close>. Everything else succeeds, and no abandoned promise rejects.
\<close>

definition fixed_env ::
  "book list \<Rightarrow> (string \<Rightarrow> string + unit) \<Rightarrow> string \<Rightarrow> string \<Rightarrow> http_outcome \<Rightarrow> unit env"
where
  "fixed_env books nav markup address answer =
     \<lparr>launch = (\<lambda>opts e. (Inr 1, e)),
      newContext = (\<lambda>b e. (Inr 2, e)),
      addCookies = (\<lambda>c e. (Inr (), e)),
      newPage = (\<lambda>c e. (Inr 3, e)),
      goto = (\<lambda>p u e. (nav u, e)),
      waitForSelector = (\<lambda>p sel e. (Inr (), e)),
      evaluate_tiles = (\<lambda>p e. (Inr books, e)),
      content = (\<lambda>p e. (Inr markup, e)),
      waitForEvent_page = (\<lambda>c e. (Inr 4, e)),
      selectOption = (\<lambda>p sel v e. (Inr (), e)),
      waitForURL = (\<lambda>p e. (Inr (), e)),
      waitForLoadState = (\<lambda>p e. (Inr (), e)),
      page_url = (\<lambda>p e. address),
      isClosed = (\<lambda>p e. False),
      page_close = (\<lambda>p e. (Inr (), e)),
      context_close = (\<lambda>c e. (Inr (), e)),
      browser_close = (\<lambda>b e. (Inr (), e)),
      https_get = (\<lambda>u e. (answer, e)),
      mkdir = (\<lambda>d e. (None, e)),
      writeFile_outcome = (\<lambda>f b e. (Written, e)),
      unhandled_rejection = (\<lambda>e. False)\<rparr>"

subsection \<open>Predicates for the properties\<close>

text \<open>
  \<open>no_launch w w'\<close>: from \<open>w\<close> to \<open>w'\<close> no browser was launched. \<open>holds_file w path\<close>: a
  non-empty file is at \<open>path\<close>. \<open>recorded w r\<close>: the result \<open>r\<close> is either a success with an
  address and a non-empty file under \<^verbatim>\<open>downloads/\<close>, or a failure with neither.
  \<open>state_before\<close> gives the session variables and the world at the start of the iteration
  for the \<open>i\<close>-th book, in a loop that starts with \<open>s\<close> and \<open>w\<close>. \<open>is_ascii c\<close>: the code of
  \<open>c\<close> is below 128 (its eighth bit is clear).
\<close>

definition no_launch :: "'e world \<Rightarrow> 'e world \<Rightarrow> bool" where
  "no_launch w w' \<longleftrightarrow> launched w' = launched w \<and> launches w' = launches w"

definition holds_file :: "'e world \<Rightarrow> string \<Rightarrow> bool" where
  "holds_file w path \<longleftrightarrow> (\<exists>buf. fs w path = Some buf \<and> length buf > 0)"

definition recorded :: "'e world \<Rightarrow> bookResult \<Rightarrow> bool" where
  "recorded w r \<longleftrightarrow>
     (if success r
      then pdfUrl r \<noteq> None \<and> pdfUrl r \<noteq> Some [] \<and>
           (\<exists>name. downloadPath r = Some (''downloads/'' @ name) \<and> holds_file w (''downloads/'' @ name))
      else pdfUrl r = None \<and> downloadPath r = None \<and> error r \<noteq> None)"

fun state_before ::
  "'e env \<Rightarrow> bool \<Rightarrow> string \<Rightarrow> string \<Rightarrow> book list \<Rightarrow> nat \<Rightarrow> session \<Rightarrow> 'e world \<Rightarrow> session \<times> 'e world"
where
  "state_before env runHeadless productName productVersion books 0 s w = (s, w)"
| "state_before env runHeadless productName productVersion [] (Suc i) s w = (s, w)"
| "state_before env runHeadless productName productVersion (b # books) (Suc i) s w =
     (case processBook env runHeadless productName productVersion b s w of
        (s', r, w') \<Rightarrow> state_before env runHeadless productName productVersion books i s' w')"

definition is_ascii :: "char \<Rightarrow> bool" where
  "is_ascii c \<longleftrightarrow> \<not> digit7 c"

subsection \<open>A run with a success, a critical failure and a book after it\<close>

text \<open>
  Three books on the listing page. The page of each holds a link to its PDF, which the
  network serves in two chunks. The navigation to the second book fails on every attempt
  with the message of a closed target.
\<close>

definition example_books :: "book list" where
  "example_books =
     [\<lparr>title = ''A/B:C*D'', url = ''https://docs.redhat.com/b1''\<rparr>,
      \<lparr>title = ''Guide'', url = ''https://docs.redhat.com/b2''\<rparr>,
      \<lparr>title = ''Notes'', url = ''https://docs.redhat.com/b3''\<rparr>]"

definition example_markup :: string where
  "example_markup =
     ''<a href='' @ [double_quote] @ ''https://docs.redhat.com/en/documentation/p/v/pdf/guide.pdf''
     @ [double_quote] @ ''>PDF</a>''"

definition example_env :: "unit env" where
  "example_env =
     fixed_env example_books
       (\<lambda>u. if u = ''https://docs.redhat.com/b2'' then Inl ''page.goto: Target closed'' else Inr ())
       example_markup ''about:blank'' (Response 200 (Body [''%PDF'', ''-1.7'']))"

definition example_run :: "bool \<Rightarrow> bookResult list option \<times> unit world" where
  "example_run runHeadless =
     scrapeAndDownloadDocs example_env (\<lambda>results. ''[]'') ''https://docs.redhat.com/en/documentation/p/v''
       ''p'' ''v'' runHeadless (world0 ())"

subsection \<open>A headed run in which the selection of the format fails\<close>

text \<open>
  The example environment, except that every selection of the PDF format fails with the
  message of a closed target, and that an abandoned promise has rejected whenever the
  environment is asked.
\<close>

definition selection_failure_env :: "unit env" where
  "selection_failure_env =
     example_env
       \<lparr>selectOption := (\<lambda>p sel v e. (Inl ''page.selectOption: Target closed'', e)),
        unhandled_rejection := (\<lambda>e. True)\<rparr>"

definition selection_failure_run :: "bookResult list option \<times> unit world" where
  "selection_failure_run =
     scrapeAndDownloadDocs selection_failure_env (\<lambda>results. ''[]'')
       ''https://docs.redhat.com/en/documentation/p/v'' ''p'' ''v'' False (world0 ())"

subsection \<open>The shape of a PDF link\<close>

text \<open>
  The specification's shape of the address searched for in the headless mode,
  \<^verbatim>\<open>https://<doc-host>/en/documentation/<productName>/<productVersion>/pdf/<anything>.pdf\<close>,
  with the host of the script: \<open>pdf_prefix\<close> is the part before \<^verbatim>\<open><anything>\<close>, and a text
  has the shape when it is that prefix, one or more characters other than a double
  quote, and \<^verbatim>\<open>.pdf\<close>, letters compared without regard to case (\<open>ci_eq\<close>).
  \<open>pdfLink_atoms\<close> is the expression that the script builds, parsed, and \<open>lit_at e s k\<close>
  says that the literal text \<open>e\<close> matches in \<open>s\<close> at offset \<open>k\<close>.
\<close>

definition pdf_prefix :: "string \<Rightarrow> string \<Rightarrow> string" where
  "pdf_prefix productName productVersion =
     ''https://docs.redhat.com/en/documentation/'' @ productName @ ''/'' @ productVersion @ ''/pdf/''"

definition ci_eq :: "string \<Rightarrow> string \<Rightarrow> bool" where
  "ci_eq a b \<longleftrightarrow> map canonicalize a = map canonicalize b"

definition pdf_link_shape :: "string \<Rightarrow> string \<Rightarrow> string \<Rightarrow> bool" where
  "pdf_link_shape productName productVersion u \<longleftrightarrow>
     (\<exists>p r e. u = p @ r @ e \<and> ci_eq p (pdf_prefix productName productVersion) \<and>
                r \<noteq> [] \<and> double_quote \<notin> set r \<and> ci_eq e ''.pdf'')"

definition pdfLink_atoms :: "string \<Rightarrow> string \<Rightarrow> atom list" where
  "pdfLink_atoms productName productVersion =
     map Lit (pdf_prefix productName productVersion) @ PlusNot double_quote # map Lit ''.pdf''"

definition lit_at :: "string \<Rightarrow> string \<Rightarrow> nat \<Rightarrow> bool" where
  "lit_at e s k \<longleftrightarrow> length e \<le> length (drop k s) \<and> ci_eq (take (length e) (drop k s)) e"

section \<open>Properties\<close>

subsection \<open>Properties of withRetry\<close>

lemma withRetry_loop_succeeds:
  assumes "\<forall>i<k. isl (f i)" and "f k = Inr v" and "k \<le> m" and "attempt \<le> k" and "ext w = attempt"
  shows "withRetry_loop (scripted f) label m attempt le w =
         (Inr v, w\<lparr>slept := slept w @ map backoff [attempt..<k], ext := Suc k\<rparr>)"
  using assms
proof (induction "k - attempt" arbitrary: attempt le w)
  case 0
  then have "attempt = k" by simp
  with 0 show ?case
    by (simp add: withRetry_loop.simps [of _ _ _ k] scripted_def)
next
  case (Suc d)
  then have lt: "attempt < k" by simp
  then obtain e where e: "f attempt = Inl e"
    using Suc.prems(1) by (cases "f attempt") auto
  let ?w = "sleep (backoff attempt) (w\<lparr>ext := Suc attempt\<rparr>)"
  have "withRetry_loop (scripted f) label m (Suc attempt) (Some e) ?w =
        (Inr v, ?w\<lparr>slept := slept ?w @ map backoff [Suc attempt..<k], ext := Suc k\<rparr>)"
    using Suc.hyps(2) Suc.prems lt by (intro Suc.hyps(1)) (auto simp: sleep_def)
  with lt Suc.prems e show ?case
    by (simp add: withRetry_loop.simps [of _ _ _ attempt] scripted_def sleep_def upt_conv_Cons)
qed

lemma withRetry_loop_fails:
  assumes "\<forall>i\<le>m. f i = Inl (e i)" and "attempt \<le> m" and "ext w = attempt"
  shows "withRetry_loop (scripted f) label m attempt le w =
         (Inl (''All '' @ show_nat (m + 1) @ '' attempts failed for '' @ label @ '': '' @ e m),
          w\<lparr>slept := slept w @ map backoff [attempt..<m], ext := Suc m\<rparr>)"
  using assms
proof (induction "m - attempt" arbitrary: attempt le w)
  case 0
  then have "attempt = m" by simp
  with 0 show ?case
    by (simp add: withRetry_loop.simps [of _ _ _ m] withRetry_loop.simps [of _ _ _ "Suc m"] scripted_def)
next
  case (Suc d)
  then have lt: "attempt < m" by simp
  let ?w = "sleep (backoff attempt) (w\<lparr>ext := Suc attempt\<rparr>)"
  have "withRetry_loop (scripted f) label m (Suc attempt) (Some (e attempt)) ?w =
        (Inl (''All '' @ show_nat (m + 1) @ '' attempts failed for '' @ label @ '': '' @ e m),
         ?w\<lparr>slept := slept ?w @ map backoff [Suc attempt..<m], ext := Suc m\<rparr>)"
    using Suc.hyps(2) Suc.prems lt by (intro Suc.hyps(1)) (auto simp: sleep_def)
  with lt Suc.prems show ?case
    by (simp add: withRetry_loop.simps [of _ _ _ attempt] scripted_def sleep_def upt_conv_Cons)
qed

text \<open>
  Claim C4. An action that fails on its first \<open>k\<close> invocations and succeeds with \<open>v\<close>
  on the next one, run by \<open>withRetry\<close> with \<open>maxAttempts \<ge> k\<close>: the call returns \<open>v\<close>,
  and the action has been invoked exactly \<open>k + 1\<close> times (the invocation counter of the
  world goes from 0 to \<open>k + 1\<close>). The waits in between are the backoff delays of the
  attempts \<open>0..k-1\<close>.
\<close>

theorem withRetry_fails_k_times_then_succeeds:
  assumes "\<forall>i<k. isl (f i)" and "f k = Inr v" and "k \<le> maxAttempts" and "ext w = 0"
  shows "withRetry (scripted f) label maxAttempts w =
         (Inr v, w\<lparr>slept := slept w @ map backoff [0..<k], ext := k + 1\<rparr>)"
  using withRetry_loop_succeeds [OF assms(1-3), of 0 w label None] assms(4)
  by (simp add: withRetry_def)

theorem withRetry_fails_k_times_then_succeeds_witness:
  "withRetry (scripted (\<lambda>i. if i < 2 then Inl ''timeout'' else Inr (7::nat))) ''navigation'' 3 (world0 0) =
     (Inr 7, (world0 0)\<lparr>slept := [1000, 2000], ext := 3\<rparr>)"
  using withRetry_fails_k_times_then_succeeds
    [of 2 "\<lambda>i. if i < 2 then Inl ''timeout'' else Inr (7::nat)" 7 3 "world0 0" "''navigation''"]
  by (simp add: world0_def backoff_def upt_rec)

text \<open>
  Claim C5. An action that fails on every invocation, run by \<open>withRetry\<close> with
  \<open>maxAttempts = m\<close>: the action is invoked exactly \<open>m + 1\<close> times, the waits are
  \<open>min (1000 * 2 ^ attempt) 10000\<close> milliseconds after each failed attempt \<open>0..m-1\<close> and
  none after the last, so the time waited is the sum of these delays, and the call
  fails with the message
  \<^verbatim>\<open>All <m+1> attempts failed for <label>: <message of the last error>\<close>.
\<close>

theorem withRetry_always_fails:
  assumes "\<forall>i. f i = Inl (e i)" and "ext w = 0"
  shows "withRetry (scripted f) label m w =
           (Inl (''All '' @ show_nat (m + 1) @ '' attempts failed for '' @ label @ '': '' @ e m),
            w\<lparr>slept := slept w @ map (\<lambda>attempt. min (1000 * 2 ^ attempt) 10000) [0..<m],
              ext := m + 1\<rparr>)
         \<and> sum_list (slept (snd (withRetry (scripted f) label m w))) =
             sum_list (slept w) + (\<Sum>attempt<m. min (1000 * 2 ^ attempt) 10000)"
proof -
  have b: "backoff = (\<lambda>attempt. min (1000 * 2 ^ attempt) 10000)"
    by (rule ext) (simp add: backoff_def)
  have "\<forall>i\<le>m. f i = Inl (e i)"
    using assms(1) by simp
  from withRetry_loop_fails [OF this, of 0 w label None] assms(2)
  have r: "withRetry (scripted f) label m w =
           (Inl (''All '' @ show_nat (m + 1) @ '' attempts failed for '' @ label @ '': '' @ e m),
            w\<lparr>slept := slept w @ map (\<lambda>attempt. min (1000 * 2 ^ attempt) 10000) [0..<m],
              ext := m + 1\<rparr>)"
    by (simp add: withRetry_def b)
  have "sum_list (map (\<lambda>attempt. min (1000 * 2 ^ attempt) 10000) [0..<m]) =
        (\<Sum>attempt<m. min (1000 * 2 ^ attempt) (10000::nat))"
    by (simp add: interv_sum_list_conv_sum_set_nat atLeast0LessThan)
  with r show ?thesis by simp
qed

theorem withRetry_always_fails_witness:
  "withRetry (scripted (\<lambda>i. Inl (''timeout '' @ show_nat i) :: string + nat)) ''navigation'' 5 (world0 0) =
     (Inl ''All 6 attempts failed for navigation: timeout 5'',
      (world0 0)\<lparr>slept := [1000, 2000, 4000, 8000, 10000], ext := 6\<rparr>)"
  using withRetry_always_fails
    [of "\<lambda>i. Inl (''timeout '' @ show_nat i) :: string + nat" "\<lambda>i. ''timeout '' @ show_nat i" "world0 0" "''navigation''" 5]
  by (simp add: world0_def upt_rec show_nat.simps digit_char_def)

subsection \<open>What the per-book steps leave unchanged\<close>

lemma no_launch_refl [simp]: "no_launch w w"
  by (simp add: no_launch_def)

lemma no_launch_trans: "no_launch w w1 \<Longrightarrow> no_launch w1 w2 \<Longrightarrow> no_launch w w2"
  by (simp add: no_launch_def)

lemma no_launch_ext [simp]: "no_launch w (w1\<lparr>ext := e\<rparr>) = no_launch w w1"
  by (simp add: no_launch_def)

lemma no_launch_abandoned [simp]: "no_launch w (w1\<lparr>abandoned := n\<rparr>) = no_launch w w1"
  by (simp add: no_launch_def)

lemma no_launch_exited [simp]: "no_launch w (w1\<lparr>exited := x\<rparr>) = no_launch w w1"
  by (simp add: no_launch_def)

lemma no_launch_fs [simp]: "no_launch w (w1\<lparr>fs := f\<rparr>) = no_launch w w1"
  by (simp add: no_launch_def)

lemma no_launch_sleep [simp]: "no_launch w (sleep ms w)"
  by (simp add: no_launch_def sleep_def)

lemma no_launch_lift: "lift operation w = (r, w') \<Longrightarrow> no_launch w w'"
  by (auto simp: lift_def split: prod.splits)

lemma no_launch_swallow [simp]: "no_launch w (swallow operation w)"
  by (simp add: swallow_def)

lemma no_launch_close_if_open [simp]: "no_launch w (close_if_open env page w)"
  by (simp add: close_if_open_def split: option.splits)

lemma fs_sleep [simp]: "fs (sleep ms w) = fs w"
  by (simp add: sleep_def)

lemma fs_swallow [simp]: "fs (swallow operation w) = fs w"
  by (simp add: swallow_def)

lemma fs_close_if_open [simp]: "fs (close_if_open env page w) = fs w"
  by (simp add: close_if_open_def split: option.splits)

lemma withRetry_loop_rule:
  assumes act: "\<And>w0 r w1. R w w0 \<Longrightarrow> actionFn w0 = (r, w1) \<Longrightarrow> R w w1 \<and> (\<forall>v. r = Inr v \<longrightarrow> Q v w1)"
    and sl: "\<And>w0 ms. R w w0 \<Longrightarrow> R w (sleep ms w0)"
    and start: "R w ws"
    and run: "withRetry_loop actionFn actionName retryCount attempt lastError ws = (r, w')"
  shows "R w w' \<and> (\<forall>v. r = Inr v \<longrightarrow> Q v w')"
  using start run
proof (induction "Suc retryCount - attempt" arbitrary: attempt lastError ws)
  case 0
  then have "\<not> attempt \<le> retryCount" by simp
  with "0.prems" show ?case
    by (auto simp: withRetry_loop.simps [of actionFn actionName retryCount attempt] split: option.splits)
next
  case (Suc d)
  then have le: "attempt \<le> retryCount" by simp
  obtain r1 w1 where a: "actionFn ws = (r1, w1)" by (cases "actionFn ws")
  from act [OF Suc.prems(1) a] have R1: "R w w1" and Q1: "\<forall>v. r1 = Inr v \<longrightarrow> Q v w1" by auto
  show ?case
  proof (cases r1)
    case (Inr v)
    with le a Suc.prems(2) R1 Q1 show ?thesis
      by (auto simp: withRetry_loop.simps [of actionFn actionName retryCount attempt])
  next
    case (Inl message)
    let ?w2 = "if attempt < retryCount then sleep (backoff attempt) w1 else w1"
    have R2: "R w ?w2" using R1 sl by auto
    have run2: "withRetry_loop actionFn actionName retryCount (Suc attempt) (Some message) ?w2 = (r, w')"
      using le a Inl Suc.prems(2)
      by (simp add: withRetry_loop.simps [of actionFn actionName retryCount attempt])
    have "d = Suc retryCount - Suc attempt" using Suc.hyps(2) by simp
    from Suc.hyps(1) [OF this R2 run2] show ?thesis .
  qed
qed

lemma withRetry_rule:
  assumes act: "\<And>w0 r0 w1. R w w0 \<Longrightarrow> actionFn w0 = (r0, w1) \<Longrightarrow> R w w1 \<and> (\<forall>v. r0 = Inr v \<longrightarrow> Q v w1)"
    and sl: "\<And>w0 ms. R w w0 \<Longrightarrow> R w (sleep ms w0)"
    and start: "R w w"
    and run: "withRetry actionFn actionName retryCount w = (r, w')"
  shows "R w w' \<and> (\<forall>v. r = Inr v \<longrightarrow> Q v w')"
proof (rule withRetry_loop_rule [where R = R and Q = Q and actionFn = actionFn and w = w and ws = w])
  show "withRetry_loop actionFn actionName retryCount 0 None w = (r, w')"
    using run by (simp add: withRetry_def)
  show "R w w" by (rule start)
  show "\<And>w0 ms. R w w0 \<Longrightarrow> R w (sleep ms w0)" by (rule sl)
  show "\<And>w0 r0 w1. R w w0 \<Longrightarrow> actionFn w0 = (r0, w1) \<Longrightarrow> R w w1 \<and> (\<forall>v. r0 = Inr v \<longrightarrow> Q v w1)"
    by (rule act)
qed

lemma no_launch_withRetry:
  assumes act: "\<And>w0 r0 w1. actionFn w0 = (r0, w1) \<Longrightarrow> no_launch w0 w1 \<and> (\<forall>v. r0 = Inr v \<longrightarrow> Q v w1)"
    and run: "withRetry actionFn actionName retryCount w = (r, w')"
  shows "no_launch w w' \<and> (\<forall>v. r = Inr v \<longrightarrow> Q v w')"
proof (rule withRetry_rule [where R = no_launch and Q = Q, OF _ _ _ run])
  show "no_launch w w" by simp
  show "\<And>w0 ms. no_launch w w0 \<Longrightarrow> no_launch w (sleep ms w0)"
    using no_launch_sleep no_launch_trans by blast
  show "\<And>w0 r0 w1. no_launch w w0 \<Longrightarrow> actionFn w0 = (r0, w1) \<Longrightarrow> no_launch w w1 \<and> (\<forall>v. r0 = Inr v \<longrightarrow> Q v w1)"
    using act no_launch_trans by blast
qed

lemma no_launch_withRetry_lift:
  assumes "withRetry (lift operation) actionName retryCount w = (r, w')"
  shows "no_launch w w'"
  using no_launch_withRetry [where Q = "\<lambda>v w. True", OF _ assms] no_launch_lift by blast

lemma downloadPdf_no_launch:
  assumes "downloadPdf env pdf_url t w = (r, w')"
  shows "no_launch w w' \<and>
         (\<forall>path. r = Inr path \<longrightarrow>
            path = path_join ''downloads'' (sanitize t @ ''.pdf'') \<and> holds_file w' path)"
  using assms
  unfolding downloadPdf_def writeFile_def Let_def
  by (auto simp: holds_file_def
           split: prod.splits http_outcome.splits response_body.splits option.splits if_splits
                  write_outcome.splits)
     blast+

lemma withRetry_downloadPdf:
  assumes "withRetry (downloadPdf env pdf_url t) actionName retryCount w = (r, w')"
  shows "no_launch w w' \<and>
         (\<forall>path. r = Inr path \<longrightarrow>
            path = path_join ''downloads'' (sanitize t @ ''.pdf'') \<and> holds_file w' path)"
  by (rule no_launch_withRetry [OF _ assms]) (rule downloadPdf_no_launch)

lemma locate_headless_no_launch:
  assumes "locate_headless env productName productVersion bookPage b w = (r, w')"
  shows "no_launch w w' \<and> (\<forall>u. r = Inr u \<longrightarrow> u \<noteq> [])"
  using assms unfolding locate_headless_def Let_def
  by (auto dest: no_launch_lift split: prod.splits sum.splits option.splits if_splits)

lemma locate_headed_no_launch:
  assumes "locate_headed env ctx bookPage b w = (r, np, w')"
  shows "no_launch w w'"
  using assms unfolding locate_headed_def Let_def
  by (auto dest!: no_launch_lift no_launch_withRetry_lift split: prod.splits sum.splits)
     (meson no_launch_trans)+

lemma book_try_no_launch:
  assumes "book_try env runHeadless productName productVersion s b w = (outcome, bp, np, w')"
  shows "no_launch w w' \<and>
         (\<forall>u p. outcome = Inr (u, p) \<longrightarrow>
            u \<noteq> [] \<and>
            p = path_join ''downloads'' (sanitize (downloadTitle productName productVersion b) @ ''.pdf'') \<and>
            holds_file w' p)"
proof (cases "browserContext s")
  case None
  with assms show ?thesis by (auto simp: book_try_def)
next
  case (Some ctx)
  obtain r1 w1 where n: "lift (newPage env ctx) w = (r1, w1)" by (cases "lift (newPage env ctx) w")
  have g1: "no_launch w w1" using n by (rule no_launch_lift)
  show ?thesis
  proof (cases r1)
    case (Inl m)
    with assms Some n g1 show ?thesis by (auto simp: book_try_def)
  next
    case (Inr bookPage)
    obtain r2 w2 where nav: "withRetry (lift (goto env bookPage (url b)))
        (''navigation to '' @ title b @ '' HTML page'') MAX_RETRIES w1 = (r2, w2)"
      by (cases "withRetry (lift (goto env bookPage (url b))) (''navigation to '' @ title b @ '' HTML page'') MAX_RETRIES w1")
    have g2: "no_launch w w2" using g1 no_launch_withRetry_lift [OF nav] by (rule no_launch_trans)
    show ?thesis
    proof (cases r2)
      case (Inl m)
      with assms Some n Inr nav g2 show ?thesis by (auto simp: book_try_def)
    next
      case r2: (Inr u2)
      let ?loc = "if runHeadless
            then (case locate_headless env productName productVersion bookPage b w2 of
                    (located, w3) \<Rightarrow> (located, None, w3))
            else locate_headed env ctx bookPage b w2"
      obtain r3 np3 w3 where loc: "?loc = (r3, np3, w3)" by (cases ?loc)
      have g3: "no_launch w2 w3 \<and> (runHeadless \<longrightarrow> (\<forall>u. r3 = Inr u \<longrightarrow> u \<noteq> []))"
        using loc locate_headless_no_launch locate_headed_no_launch
        by (auto split: if_splits prod.splits) blast+
      then have g3': "no_launch w w3" using g2 no_launch_trans by blast
      show ?thesis
      proof (cases r3)
        case (Inl m)
        with assms Some n Inr nav r2 loc g3' show ?thesis by (auto simp: book_try_def)
      next
        case r3: (Inr foundUrl)
        show ?thesis
        proof (cases "foundUrl = []")
          case True
          with assms Some n Inr nav r2 loc r3 g3' show ?thesis by (auto simp: book_try_def)
        next
          case False
          obtain r4 w4 where dl: "withRetry (downloadPdf env foundUrl (downloadTitle productName productVersion b))
             (''downloading PDF for '' @ title b) MAX_RETRIES w3 = (r4, w4)"
            by (cases "withRetry (downloadPdf env foundUrl (downloadTitle productName productVersion b)) (''downloading PDF for '' @ title b) MAX_RETRIES w3")
          note d = withRetry_downloadPdf [OF dl]
          have g4: "no_launch w w4" using g3' d no_launch_trans by blast
          from assms Some n Inr nav r2 loc r3 False dl
          have "(outcome, bp, np, w') =
                (case r4 of Inl message \<Rightarrow> (Inl message, Some bookPage, np3, w4)
                 | Inr savedPath \<Rightarrow> (Inr (foundUrl, savedPath), Some bookPage, np3, w4))"
            by (simp add: book_try_def)
          with g4 d False show ?thesis by (auto split: sum.splits)
        qed
      qed
    qed
  qed
qed

lemma no_launch_then_close [simp]: "no_launch w w1 \<Longrightarrow> no_launch w (close_if_open env page w1)"
  using no_launch_trans no_launch_close_if_open by blast

lemma no_launch_then_swallow [simp]: "no_launch w w1 \<Longrightarrow> no_launch w (swallow operation w1)"
  using no_launch_trans no_launch_swallow by blast

lemma no_launch_then_sleep [simp]: "no_launch w w1 \<Longrightarrow> no_launch w (sleep ms w1)"
  using no_launch_trans no_launch_sleep by blast

lemma no_launch_teardown [simp]: "no_launch w w1 \<Longrightarrow> no_launch w (teardown env s bookPage newPageForPdf w1)"
  by (simp add: teardown_def Let_def split: option.splits)

lemma processBook_result:
  assumes "processBook env runHeadless productName productVersion b s w = (s', r, w')"
  shows "no_launch w w' \<and> title r = title b \<and> url r = url b \<and> recorded w' r \<and>
         (s' = s \<or> (s' = \<lparr>browser = None, browserContext = None\<rparr> \<and> browser s \<noteq> None)) \<and>
         (criticalError r = Some True \<and> browser s \<noteq> None \<longrightarrow> s' = \<lparr>browser = None, browserContext = None\<rparr>) \<and>
         (success r \<longrightarrow>
            downloadPath r = Some (path_join ''downloads'' (sanitize (downloadTitle productName productVersion b) @ ''.pdf'')))"
proof -
  obtain outcome bp np w1 where t: "book_try env runHeadless productName productVersion s b w = (outcome, bp, np, w1)"
    by (cases "book_try env runHeadless productName productVersion s b w") auto
  note bt = book_try_no_launch [OF t]
  define fin where "fin = (\<lambda>w2. let w3 = close_if_open env bp w2; w4 = close_if_open env np w3
                             in if \<not> runHeadless then sleep 1000 w4 else w4)"
  have fin: "\<And>w2. no_launch w2 (fin w2)"
    unfolding fin_def Let_def by simp
  show ?thesis
  proof (cases outcome)
    case (Inr up)
    obtain u p where up: "up = (u, p)" by (cases up)
    from assms t Inr up have eq: "s' = s" "w' = fin w1"
      "r = \<lparr>title = title b, url = url b, pdfUrl = Some u, downloadPath = Some p, success = True,
            error = None, criticalError = None\<rparr>"
      by (auto simp: processBook_def fin_def Let_def)
    from bt Inr up have u: "u \<noteq> []" and p: "p = path_join ''downloads'' (sanitize (downloadTitle productName productVersion b) @ ''.pdf'')"
      and h: "holds_file w1 p" by auto
    have g: "no_launch w w'" using bt fin eq(2) no_launch_trans by blast
    have "fs w' = fs w1" unfolding eq(2) fin_def Let_def by simp
    with h have "holds_file w' p" by (simp add: holds_file_def)
    with eq g u p show ?thesis
      by (auto simp: recorded_def path_join_def)
  next
    case (Inl m)
    define restart where "restart = (isCriticalError m \<and> browser s \<noteq> None)"
    from assms t Inl have eq: "s' = (if restart then \<lparr>browser = None, browserContext = None\<rparr> else s)"
      "w' = fin (if restart then teardown env s bp np w1 else w1)"
      "r = \<lparr>title = title b, url = url b, pdfUrl = None, downloadPath = None, success = False,
            error = Some m, criticalError = Some (isCriticalError m)\<rparr>"
      by (auto simp: processBook_def fin_def Let_def restart_def)
    have "no_launch w1 (if restart then teardown env s bp np w1 else w1)" by simp
    then have g: "no_launch w w'" using bt fin eq(2) no_launch_trans by blast
    with eq show ?thesis
      by (auto simp: recorded_def restart_def)
  qed
qed

subsection \<open>Launch options\<close>

lemma lift_same_launches:
  "lift operation w0 = (r0, w2) \<Longrightarrow> launched w2 = launched w0 \<and> launches w2 = launches w0"
  using no_launch_lift [of operation w0 r0 w2] by (simp add: no_launch_def)

lemma withRetry_lift_same_launches:
  "withRetry (lift operation) actionName retryCount w0 = (r0, w2) \<Longrightarrow>
     launched w2 = launched w0 \<and> launches w2 = launches w0"
  using no_launch_withRetry_lift [of operation actionName retryCount w0 r0 w2] by (simp add: no_launch_def)

lemma discover_launches:
  assumes "discover env targetUrl productName productVersion runHeadless w = (r, s, w1)"
  shows "launched w1 = Suc (launched w) \<and> launches w1 = launches w @ [mk_launchOptions runHeadless]"
  using assms unfolding discover_def chromium_launch_def Let_def
  by (auto split: prod.splits sum.splits dest!: lift_same_launches withRetry_lift_same_launches)

lemma processBooks_no_launch:
  assumes "processBooks env runHeadless productName productVersion books s acc w = (s', results, w')"
  shows "no_launch w w'"
  using assms
proof (induction books arbitrary: s acc w)
  case Nil
  then show ?case by simp
next
  case (Cons b books)
  obtain s1 r1 w1 where p: "processBook env runHeadless productName productVersion b s w = (s1, r1, w1)"
    by (cases "processBook env runHeadless productName productVersion b s w") auto
  from processBook_result [OF p] have g1: "no_launch w w1" by simp
  show ?case
  proof (cases "0 < abandoned w1 \<and> unhandled_rejection env (ext w1)")
    case True
    with Cons.prems p have "w' = w1\<lparr>exited := True\<rparr>" by auto
    with g1 show ?thesis by simp
  next
    case False
    with Cons.prems p have
      "processBooks env runHeadless productName productVersion books s1 (acc @ [r1]) w1 = (s', results, w')"
      by auto
    from Cons.IH [OF this] g1 show ?thesis by (blast intro: no_launch_trans)
  qed
qed

lemma launches_writeFile: "launches (snd (writeFile env filePath buffer w)) = launches w"
  by (simp add: writeFile_def split: prod.splits write_outcome.splits option.splits)

lemma launches_outer_finally: "launches (outer_finally env s w) = launches w"
  by (simp add: outer_finally_def swallow_def split: option.splits)

lemma scrapeAndDownloadDocs_launches:
  "launches (snd (scrapeAndDownloadDocs env stringify targetUrl productName productVersion runHeadless w)) =
     launches w @ [mk_launchOptions runHeadless]"
proof -
  obtain d s w1 where d: "discover env targetUrl productName productVersion runHeadless w = (d, s, w1)"
    by (cases "discover env targetUrl productName productVersion runHeadless w") auto
  note l = discover_launches [OF d]
  show ?thesis
  proof (cases d)
    case (Inl m)
    with d l show ?thesis
      by (simp add: scrapeAndDownloadDocs_def launches_outer_finally)
  next
    case (Inr books)
    obtain s2 rs w2 where p: "processBooks env runHeadless productName productVersion books s [] w1 = (s2, rs, w2)"
      by (cases "processBooks env runHeadless productName productVersion books s [] w1") auto
    from processBooks_no_launch [OF p] have "launches w2 = launches w1" by (simp add: no_launch_def)
    with d Inr p l show ?thesis
      by (simp add: scrapeAndDownloadDocs_def Let_def launches_outer_finally launches_writeFile)
  qed
qed

text \<open>
  Against claim C9 as stated: a session that is not headed (\<open>runHeadless\<close> true) is
  launched without \<open>slowMo\<close>. The options built for it hold none, and the one launch of the
  example run in headless mode is made with \<^verbatim>\<open>{ headless: true }\<close>.
\<close>

theorem slowMo_not_headed_counterexample:
  "headless (mk_launchOptions True) = True \<and> slowMo (mk_launchOptions True) = None \<and>
   launches (snd (example_run True)) = [\<lparr>headless = True, slowMo = None\<rparr>]"
proof -
  have "launches (snd (example_run True)) = [\<lparr>headless = True, slowMo = None\<rparr>]"
    by code_simp
  then show ?thesis by (simp add: mk_launchOptions_def)
qed

text \<open>
  Claim C9, amended. Every run calls \<^verbatim>\<open>chromium.launch\<close> exactly once, whatever happens
  afterwards, and the options of that call are \<^verbatim>\<open>{ headless: false, slowMo: 1000 }\<close> when
  the session is headed (\<open>runHeadless\<close> false) and \<^verbatim>\<open>{ headless: true }\<close>, with no
  \<open>slowMo\<close>, when it is not: the slow motion is applied to the headed session only.
\<close>

theorem slowMo_headed_only:
  "launches (snd (scrapeAndDownloadDocs env stringify targetUrl productName productVersion False w)) =
     launches w @ [\<lparr>headless = False, slowMo = Some 1000\<rparr>]
   \<and> launches (snd (scrapeAndDownloadDocs env stringify targetUrl productName productVersion True w)) =
     launches w @ [\<lparr>headless = True, slowMo = None\<rparr>]"
  by (simp add: scrapeAndDownloadDocs_launches mk_launchOptions_def)

subsection \<open>Properties of downloadPdf\<close>

text \<open>
  Against claim C6 as stated: a file can be written on a path that fails. The response
  has the status 200 and eight bytes; \<^verbatim>\<open>fs.writeFile\<close> fails after four of them. The call
  is rejected with the message of a failed write, and the file is there, with the four
  bytes.
\<close>

theorem downloadPdf_failed_write_leaves_file_counterexample:
  "fst (downloadPdf
          ((fixed_env [] (\<lambda>u. Inr ()) [] [] (Response 200 (Body [''%PDF-1.7''])))
             \<lparr>writeFile_outcome := (\<lambda>f b e. (WriteFailed ''EFBIG: file too large, write'' (Some 4), e))\<rparr>)
          ''https://docs.redhat.com/x.pdf'' ''t'' (world0 ())) =
     Inl ''Error writing PDF file for t: EFBIG: file too large, write''
   \<and> fs (snd (downloadPdf
          ((fixed_env [] (\<lambda>u. Inr ()) [] [] (Response 200 (Body [''%PDF-1.7''])))
             \<lparr>writeFile_outcome := (\<lambda>f b e. (WriteFailed ''EFBIG: file too large, write'' (Some 4), e))\<rparr>)
          ''https://docs.redhat.com/x.pdf'' ''t'' (world0 ()))) ''downloads/t.pdf'' = Some ''%PDF''"
  by code_simp

text \<open>
  Claim C6, amended. For every call of \<^verbatim>\<open>downloadPdf\<close>: a response whose status is not
  200 makes the call fail with the status message and changes no file; a response with
  status 200 and a body of zero bytes makes it fail with the message of an empty
  download and changes no file. The file system is written to only after both checks
  have passed (status 200, body not empty), and then only at the path of the download.
  When the call succeeds, the file holds the whole body; when the call fails although
  the file system has changed, the failure is that of the write, and the file holds a
  part of the body (the first \<open>n\<close> bytes, possibly none).
\<close>

theorem downloadPdf_writes_after_checks:
  "(https_get env pdf_url (ext w) = (Response statusCode body, e1) \<longrightarrow> statusCode \<noteq> 200 \<longrightarrow>
      downloadPdf env pdf_url t w =
        (Inl (''Failed to download PDF. Status code: '' @ show_nat statusCode @ '' for '' @ pdf_url),
         w\<lparr>ext := e1\<rparr>))
   \<and> (https_get env pdf_url (ext w) = (Response 200 (Body chunks), e1) \<longrightarrow> length (concat chunks) = 0 \<longrightarrow>
      downloadPdf env pdf_url t w =
        (Inl (''Downloaded PDF for '' @ t @ '' is empty.''), w\<lparr>ext := e1\<rparr>))
   \<and> (fs (snd (downloadPdf env pdf_url t w)) \<noteq> fs w \<longrightarrow>
        (\<exists>body e. https_get env pdf_url (ext w) = (Response 200 (Body body), e) \<and> 0 < length (concat body)))
   \<and> (\<not> isl (fst (downloadPdf env pdf_url t w)) \<longrightarrow>
        (\<exists>body e. https_get env pdf_url (ext w) = (Response 200 (Body body), e) \<and>
           fst (downloadPdf env pdf_url t w) = Inr (''downloads/'' @ sanitize t @ ''.pdf'') \<and>
           fs (snd (downloadPdf env pdf_url t w)) = (fs w)(''downloads/'' @ sanitize t @ ''.pdf'' \<mapsto> concat body)))
   \<and> (isl (fst (downloadPdf env pdf_url t w)) \<and> fs (snd (downloadPdf env pdf_url t w)) \<noteq> fs w \<longrightarrow>
        (\<exists>body e n message. https_get env pdf_url (ext w) = (Response 200 (Body body), e) \<and>
           fst (downloadPdf env pdf_url t w) = Inl (''Error writing PDF file for '' @ t @ '': '' @ message) \<and>
           fs (snd (downloadPdf env pdf_url t w)) =
             (fs w)(''downloads/'' @ sanitize t @ ''.pdf'' \<mapsto> take n (concat body))))"
  unfolding downloadPdf_def writeFile_def Let_def path_join_def
  by (auto split: prod.splits http_outcome.splits response_body.splits option.splits if_splits
                  write_outcome.splits)

theorem downloadPdf_writes_after_checks_witness:
  "downloadPdf (fixed_env [] (\<lambda>u. Inr ()) [] [] (Response 404 (Body [''Not Found''])))
       ''https://docs.redhat.com/x.pdf'' ''p-v-Guide'' (world0 ()) =
     (Inl ''Failed to download PDF. Status code: 404 for https://docs.redhat.com/x.pdf'', world0 ())
   \<and> downloadPdf (fixed_env [] (\<lambda>u. Inr ()) [] [] (Response 200 (Body [[], []])))
       ''https://docs.redhat.com/x.pdf'' ''p-v-Guide'' (world0 ()) =
     (Inl ''Downloaded PDF for p-v-Guide is empty.'', world0 ())
   \<and> fs (snd (downloadPdf (fixed_env [] (\<lambda>u. Inr ()) [] [] (Response 200 (Body [''%PDF'', ''-1.7''])))
       ''https://docs.redhat.com/x.pdf'' ''p-v-Guide'' (world0 ()))) =
     Map.empty(''downloads/p-v-Guide.pdf'' \<mapsto> ''%PDF-1.7'')
   \<and> (\<exists>n. fs (snd (downloadPdf
          ((fixed_env [] (\<lambda>u. Inr ()) [] [] (Response 200 (Body [''%PDF-1.7''])))
             \<lparr>writeFile_outcome := (\<lambda>f b e. (WriteFailed ''EFBIG: file too large, write'' (Some 4), e))\<rparr>)
          ''https://docs.redhat.com/x.pdf'' ''p-v-Guide'' (world0 ()))) =
        Map.empty(''downloads/p-v-Guide.pdf'' \<mapsto> take n ''%PDF-1.7''))"
proof -
  let ?url = "''https://docs.redhat.com/x.pdf''"
  let ?e404 = "fixed_env [] (\<lambda>u. Inr ()) [] [] (Response 404 (Body [''Not Found'']))"
  let ?eempty = "fixed_env [] (\<lambda>u. Inr ()) [] [] (Response 200 (Body [[], []]))"
  let ?eok = "fixed_env [] (\<lambda>u. Inr ()) [] [] (Response 200 (Body [''%PDF'', ''-1.7'']))"
  let ?efail = "(fixed_env [] (\<lambda>u. Inr ()) [] [] (Response 200 (Body [''%PDF-1.7''])))
             \<lparr>writeFile_outcome := (\<lambda>f b e. (WriteFailed ''EFBIG: file too large, write'' (Some 4), e))\<rparr>"
  have a: "downloadPdf ?e404 ?url ''p-v-Guide'' (world0 ()) =
     (Inl ''Failed to download PDF. Status code: 404 for https://docs.redhat.com/x.pdf'', world0 ())"
    using downloadPdf_writes_after_checks
      [of ?e404 ?url "world0 ()" 404 "Body [''Not Found'']" "()" "''p-v-Guide''" "[]"]
    by (simp add: fixed_env_def world0_def show_nat.simps digit_char_def)
  have b: "downloadPdf ?eempty ?url ''p-v-Guide'' (world0 ()) =
     (Inl ''Downloaded PDF for p-v-Guide is empty.'', world0 ())"
    using downloadPdf_writes_after_checks
      [of ?eempty ?url "world0 ()" 200 "Body [[], []]" "()" "''p-v-Guide''" "[[], []]"]
    by (simp add: fixed_env_def world0_def)
  have "\<not> isl (fst (downloadPdf ?eok ?url ''p-v-Guide'' (world0 ())))"
    by code_simp
  with downloadPdf_writes_after_checks [of ?eok ?url "world0 ()" 200 "Body []" "()" "''p-v-Guide''" "[]"]
  obtain body e where "https_get ?eok ?url (ext (world0 ())) = (Response 200 (Body body), e)"
    and "fs (snd (downloadPdf ?eok ?url ''p-v-Guide'' (world0 ()))) =
           (fs (world0 ()))(''downloads/'' @ sanitize ''p-v-Guide'' @ ''.pdf'' \<mapsto> concat body)"
    by blast
  then have c: "fs (snd (downloadPdf ?eok ?url ''p-v-Guide'' (world0 ()))) =
     Map.empty(''downloads/p-v-Guide.pdf'' \<mapsto> ''%PDF-1.7'')"
    by (auto simp: fixed_env_def world0_def sanitize_def illegal_chars_def)
  have l: "isl (fst (downloadPdf ?efail ?url ''p-v-Guide'' (world0 ())))"
    by code_simp
  have "fs (snd (downloadPdf ?efail ?url ''p-v-Guide'' (world0 ()))) ''downloads/p-v-Guide.pdf'' \<noteq>
        fs (world0 ()) ''downloads/p-v-Guide.pdf''"
    by code_simp
  then have "fs (snd (downloadPdf ?efail ?url ''p-v-Guide'' (world0 ()))) \<noteq> fs (world0 ())"
    by metis
  with l downloadPdf_writes_after_checks [of ?efail ?url "world0 ()" 200 "Body []" "()" "''p-v-Guide''" "[]"]
  obtain body e n where "https_get ?efail ?url (ext (world0 ())) = (Response 200 (Body body), e)"
    and "fs (snd (downloadPdf ?efail ?url ''p-v-Guide'' (world0 ()))) =
           (fs (world0 ()))(''downloads/'' @ sanitize ''p-v-Guide'' @ ''.pdf'' \<mapsto> take n (concat body))"
    by blast
  then have d: "\<exists>n. fs (snd (downloadPdf ?efail ?url ''p-v-Guide'' (world0 ()))) =
        Map.empty(''downloads/p-v-Guide.pdf'' \<mapsto> take n ''%PDF-1.7'')"
    by (auto simp: fixed_env_def world0_def sanitize_def illegal_chars_def)
  from a b c d show ?thesis by blast
qed

subsection \<open>The ledger\<close>

lemma processBooks_ledger:
  assumes "processBooks env runHeadless productName productVersion books s acc w = (s', results, w')"
    and "\<not> exited w'"
  shows "\<exists>rs. results = acc @ rs \<and> length rs = length books \<and>
           (\<forall>i<length books. \<exists>sb wb s2 wp.
              state_before env runHeadless productName productVersion books i s w = (sb, wb) \<and>
              processBook env runHeadless productName productVersion (books ! i) sb wb = (s2, rs ! i, wp))"
  using assms
proof (induction books arbitrary: s acc w)
  case Nil
  then show ?case by simp
next
  case (Cons b books)
  obtain s1 r1 w1 where p: "processBook env runHeadless productName productVersion b s w = (s1, r1, w1)"
    by (cases "processBook env runHeadless productName productVersion b s w") auto
  have going: "\<not> (0 < abandoned w1 \<and> unhandled_rejection env (ext w1))"
  proof
    assume "0 < abandoned w1 \<and> unhandled_rejection env (ext w1)"
    with Cons.prems(1) p have "w' = w1\<lparr>exited := True\<rparr>" by simp
    with Cons.prems(2) show False by simp
  qed
  with Cons.prems(1) p have rest:
    "processBooks env runHeadless productName productVersion books s1 (acc @ [r1]) w1 = (s', results, w')"
    by simp
  from Cons.IH [OF rest Cons.prems(2)] obtain rs where rs: "results = (acc @ [r1]) @ rs"
    "length rs = length books"
    and each: "\<forall>i<length books. \<exists>sb wb s2 wp.
              state_before env runHeadless productName productVersion books i s1 w1 = (sb, wb) \<and>
              processBook env runHeadless productName productVersion (books ! i) sb wb = (s2, rs ! i, wp)"
    by blast
  have "\<exists>sb wb s2 wp.
          state_before env runHeadless productName productVersion (b # books) i s w = (sb, wb) \<and>
          processBook env runHeadless productName productVersion ((b # books) ! i) sb wb = (s2, (r1 # rs) ! i, wp)"
    if "i < length (b # books)" for i
  proof (cases i)
    case 0
    with p show ?thesis by simp
  next
    case (Suc j)
    with that have "j < length books" by simp
    with each Suc p show ?thesis by simp
  qed
  with rs show ?case
    by (intro exI [of _ "r1 # rs"]) simp
qed

lemma scrapeAndDownloadDocs_Some:
  assumes "scrapeAndDownloadDocs env stringify targetUrl productName productVersion runHeadless w = (Some results, w')"
  shows "\<exists>books s w1 s2 w2.
           discover env targetUrl productName productVersion runHeadless w = (Inr books, s, w1) \<and>
           processBooks env runHeadless productName productVersion books s [] w1 = (s2, results, w2) \<and>
           \<not> exited w2"
proof -
  obtain d s w1 where d: "discover env targetUrl productName productVersion runHeadless w = (d, s, w1)"
    by (cases "discover env targetUrl productName productVersion runHeadless w") auto
  with assms obtain books where b: "d = Inr books"
    by (cases d) (auto simp: scrapeAndDownloadDocs_def)
  obtain s2 rs w2 where p: "processBooks env runHeadless productName productVersion books s [] w1 = (s2, rs, w2)"
    by (cases "processBooks env runHeadless productName productVersion books s [] w1") auto
  from assms d b p have "results = rs \<and> \<not> exited w2"
    by (auto simp: scrapeAndDownloadDocs_def Let_def split: if_splits)
  with d b p show ?thesis by blast
qed

text \<open>The ledger of the example run in headless mode.\<close>

lemma example_run_ledger:
  "fst (example_run True) =
    Some [\<lparr>title = ''A/B:C*D'', url = ''https://docs.redhat.com/b1'',
            pdfUrl = Some ''https://docs.redhat.com/en/documentation/p/v/pdf/guide.pdf'',
            downloadPath = Some ''downloads/p-v-A_B_C_D.pdf'', success = True,
            error = None, criticalError = None\<rparr>,
          \<lparr>title = ''Guide'', url = ''https://docs.redhat.com/b2'', pdfUrl = None, downloadPath = None,
            success = False,
            error = Some ''All 2 attempts failed for navigation to Guide HTML page: page.goto: Target closed'',
            criticalError = Some True\<rparr>,
          \<lparr>title = ''Notes'', url = ''https://docs.redhat.com/b3'', pdfUrl = None, downloadPath = None,
            success = False,
            error = Some ''Cannot read properties of null (reading 'newPage')'',
            criticalError = Some False\<rparr>]"
  by code_simp

text \<open>
  Claim C2. For every result of the ledger of a run: it is the result that the
  iteration for the book of the same position pushed, and in the world at the end of
  that iteration, \<open>success\<close> holds if and only if \<open>pdfUrl\<close> and \<open>downloadPath\<close> are not null
  and the file at \<open>downloadPath\<close> is not empty; and a result without success has a null
  \<open>downloadPath\<close>. (The file is looked at when the result is pushed: a later download to
  the same path may replace it.)
\<close>

theorem ledger_success_iff_downloaded:
  assumes "scrapeAndDownloadDocs env stringify targetUrl productName productVersion runHeadless w = (Some results, w')"
    and "discover env targetUrl productName productVersion runHeadless w = (Inr books, s0, w0)"
    and "i < length results"
  shows "i < length books \<and>
         (\<exists>sb wb s1 w1.
            state_before env runHeadless productName productVersion books i s0 w0 = (sb, wb) \<and>
            processBook env runHeadless productName productVersion (books ! i) sb wb = (s1, results ! i, w1) \<and>
            (success (results ! i) \<longleftrightarrow>
               pdfUrl (results ! i) \<noteq> None \<and> downloadPath (results ! i) \<noteq> None \<and>
               (\<exists>path buf. downloadPath (results ! i) = Some path \<and> fs w1 path = Some buf \<and> length buf > 0)))
         \<and> (\<not> success (results ! i) \<longrightarrow> downloadPath (results ! i) = None)"
proof -
  from scrapeAndDownloadDocs_Some [OF assms(1)] assms(2) obtain s2 w2 where
    p: "processBooks env runHeadless productName productVersion books s0 [] w0 = (s2, results, w2)"
    and x: "\<not> exited w2"
    by auto
  from processBooks_ledger [OF p x] have len: "length results = length books"
    and each: "\<forall>i<length books. \<exists>sb wb s2 wp.
              state_before env runHeadless productName productVersion books i s0 w0 = (sb, wb) \<and>
              processBook env runHeadless productName productVersion (books ! i) sb wb = (s2, results ! i, wp)"
    by auto
  from len assms(3) have i: "i < length books" by simp
  with each obtain sb wb s1 w1 where
    sb: "state_before env runHeadless productName productVersion books i s0 w0 = (sb, wb)"
    and pb: "processBook env runHeadless productName productVersion (books ! i) sb wb = (s1, results ! i, w1)"
    by blast
  from processBook_result [OF pb] have rec: "recorded w1 (results ! i)" by simp
  have iff: "success (results ! i) \<longleftrightarrow>
               pdfUrl (results ! i) \<noteq> None \<and> downloadPath (results ! i) \<noteq> None \<and>
               (\<exists>path buf. downloadPath (results ! i) = Some path \<and> fs w1 path = Some buf \<and> length buf > 0)"
    using rec by (auto simp: recorded_def holds_file_def split: if_splits)
  have no: "\<not> success (results ! i) \<longrightarrow> downloadPath (results ! i) = None"
    using rec by (auto simp: recorded_def)
  from i sb pb iff no show ?thesis by blast
qed

theorem ledger_success_iff_downloaded_witness:
  "\<exists>r1 r2 r3 w1 buf.
      fst (example_run True) = Some [r1, r2, r3] \<and>
      snd (snd (processBook example_env True ''p'' ''v'' (example_books ! 0)
                  (fst (snd (discover example_env ''https://docs.redhat.com/en/documentation/p/v'' ''p'' ''v'' True (world0 ()))))
                  (snd (snd (discover example_env ''https://docs.redhat.com/en/documentation/p/v'' ''p'' ''v'' True (world0 ())))))) = w1 \<and>
      success r1 \<and> downloadPath r1 = Some ''downloads/p-v-A_B_C_D.pdf'' \<and>
      fs w1 ''downloads/p-v-A_B_C_D.pdf'' = Some buf \<and> 0 < length buf \<and>
      \<not> success r2 \<and> pdfUrl r2 = None \<and> downloadPath r2 = None"
proof -
  let ?r1 = "\<lparr>title = ''A/B:C*D'', url = ''https://docs.redhat.com/b1'',
            pdfUrl = Some ''https://docs.redhat.com/en/documentation/p/v/pdf/guide.pdf'',
            downloadPath = Some ''downloads/p-v-A_B_C_D.pdf'', success = True,
            error = None, criticalError = None\<rparr>"
  let ?r2 = "\<lparr>title = ''Guide'', url = ''https://docs.redhat.com/b2'', pdfUrl = None, downloadPath = None,
            success = False,
            error = Some ''All 2 attempts failed for navigation to Guide HTML page: page.goto: Target closed'',
            criticalError = Some True\<rparr>"
  let ?r3 = "\<lparr>title = ''Notes'', url = ''https://docs.redhat.com/b3'', pdfUrl = None, downloadPath = None,
            success = False,
            error = Some ''Cannot read properties of null (reading 'newPage')'',
            criticalError = Some False\<rparr>"
  let ?D = "discover example_env ''https://docs.redhat.com/en/documentation/p/v'' ''p'' ''v'' True (world0 ())"
  have "fst (example_run True) = Some [?r1, ?r2, ?r3]"
    by (rule example_run_ledger)
  then obtain w' where run: "example_run True = (Some [?r1, ?r2, ?r3], w')"
    by (cases "example_run True") auto
  have "fst ?D = Inr example_books"
    by code_simp
  then obtain s0 w0 where d: "?D = (Inr example_books, s0, w0)"
    by (cases ?D) auto
  from ledger_success_iff_downloaded [OF run [unfolded example_run_def] d, of 0]
  obtain s1 w1 buf where "processBook example_env True ''p'' ''v'' (example_books ! 0) s0 w0 = (s1, ?r1, w1)"
    and "fs w1 ''downloads/p-v-A_B_C_D.pdf'' = Some buf" and "0 < length buf"
    by auto
  moreover from ledger_success_iff_downloaded [OF run [unfolded example_run_def] d, of 1]
  have "downloadPath ?r2 = None" by simp
  ultimately show ?thesis using run d by simp
qed

text \<open>
  Claim C7. The file of a successful download is
  \<^verbatim>\<open>downloads/<productName>-<productVersion>-<title>.pdf\<close> with every slash, backslash,
  colon, asterisk, question mark, double quote, less-than, greater-than and vertical bar
  of the name replaced by an underscore; it is the path recorded in the result and it
  holds a non-empty file. For the title \<^verbatim>\<open>A/B:C*D\<close>, the product name \<^verbatim>\<open>p\<close> and the version
  \<^verbatim>\<open>v\<close> the path is \<^verbatim>\<open>downloads/p-v-A_B_C_D.pdf\<close>.
\<close>

theorem pdf_file_name:
  assumes "processBook env runHeadless productName productVersion b s w = (s', r, w')"
    and "success r"
  shows "downloadPath r =
           Some (''downloads/'' @
                 map (\<lambda>c. if c \<in> {CHR ''/'', CHR 0x5C, CHR '':'', CHR ''*'', CHR ''?'', CHR 0x22, CHR ''<'', CHR ''>'', CHR ''|''}
                           then CHR ''_'' else c)
                   (productName @ ''-'' @ productVersion @ ''-'' @ title b) @ ''.pdf'')
         \<and> (\<exists>buf. fs w' (the (downloadPath r)) = Some buf \<and> length buf > 0)
         \<and> (productName = ''p'' \<and> productVersion = ''v'' \<and> title b = ''A/B:C*D'' \<longrightarrow>
              downloadPath r = Some ''downloads/p-v-A_B_C_D.pdf'')"
proof -
  from processBook_result [OF assms(1)] assms(2)
  have p: "downloadPath r = Some (path_join ''downloads'' (sanitize (downloadTitle productName productVersion b) @ ''.pdf''))"
    and rec: "recorded w' r" by auto
  have 1: "downloadPath r =
           Some (''downloads/'' @
                 map (\<lambda>c. if c \<in> {CHR ''/'', CHR 0x5C, CHR '':'', CHR ''*'', CHR ''?'', CHR 0x22, CHR ''<'', CHR ''>'', CHR ''|''}
                           then CHR ''_'' else c)
                   (productName @ ''-'' @ productVersion @ ''-'' @ title b) @ ''.pdf'')"
    using p by (simp add: path_join_def sanitize_def downloadTitle_def illegal_chars_def)
  have 2: "\<exists>buf. fs w' (the (downloadPath r)) = Some buf \<and> length buf > 0"
    using rec assms(2) by (auto simp: recorded_def holds_file_def)
  have 3: "productName = ''p'' \<and> productVersion = ''v'' \<and> title b = ''A/B:C*D'' \<longrightarrow>
              downloadPath r = Some ''downloads/p-v-A_B_C_D.pdf''"
    using 1 by simp
  from 1 2 3 show ?thesis by blast
qed

theorem pdf_file_name_witness:
  "success (fst (snd (processBook example_env True ''p'' ''v'' \<lparr>title = ''A/B:C*D'', url = ''https://docs.redhat.com/b1''\<rparr>
              \<lparr>browser = Some 1, browserContext = Some 2\<rparr> (world0 ()))))
   \<and> downloadPath (fst (snd (processBook example_env True ''p'' ''v'' \<lparr>title = ''A/B:C*D'', url = ''https://docs.redhat.com/b1''\<rparr>
              \<lparr>browser = Some 1, browserContext = Some 2\<rparr> (world0 ())))) = Some ''downloads/p-v-A_B_C_D.pdf''"
proof -
  obtain s' r w' where run:
    "processBook example_env True ''p'' ''v'' \<lparr>title = ''A/B:C*D'', url = ''https://docs.redhat.com/b1''\<rparr>
       \<lparr>browser = Some 1, browserContext = Some 2\<rparr> (world0 ()) = (s', r, w')"
    by (cases "processBook example_env True ''p'' ''v'' \<lparr>title = ''A/B:C*D'', url = ''https://docs.redhat.com/b1''\<rparr>
       \<lparr>browser = Some 1, browserContext = Some 2\<rparr> (world0 ())") auto
  have "success (fst (snd (processBook example_env True ''p'' ''v'' \<lparr>title = ''A/B:C*D'', url = ''https://docs.redhat.com/b1''\<rparr>
              \<lparr>browser = Some 1, browserContext = Some 2\<rparr> (world0 ()))))"
    by code_simp
  with run have s: "success r" by simp
  from pdf_file_name [OF run s] run s show ?thesis by simp
qed

subsection \<open>After a critical failure\<close>

text \<open>
  Claim C3, on the code. In the example run the navigation to the second book fails
  with a message that contains "Target closed". Its result has \<open>criticalError\<close> true, and
  the variables \<^verbatim>\<open>browser\<close> and \<^verbatim>\<open>context\<close> are null after it. Nothing launches a browser
  again (one launch in the whole run), so the third book, which a live session
  downloads, fails on the null context.
\<close>

theorem critical_failure_session_not_restarted:
  "map (\<lambda>r. (title r, success r, criticalError r, error r)) (the (fst (example_run True))) =
     [(''A/B:C*D'', True, None, None),
      (''Guide'', False, Some True,
       Some ''All 2 attempts failed for navigation to Guide HTML page: page.goto: Target closed''),
      (''Notes'', False, Some False, Some ''Cannot read properties of null (reading 'newPage')'')]
   \<and> fst (processBooks example_env True ''p'' ''v'' (take 2 example_books)
            \<lparr>browser = Some 1, browserContext = Some 2\<rparr> [] (world0 ())) =
       \<lparr>browser = None, browserContext = None\<rparr>
   \<and> success (fst (snd (processBook example_env True ''p'' ''v''
                           \<lparr>title = ''Notes'', url = ''https://docs.redhat.com/b3''\<rparr>
                           \<lparr>browser = Some 1, browserContext = Some 2\<rparr> (world0 ()))))
   \<and> launched (snd (example_run True)) = 1"
proof -
  have 1: "fst (processBooks example_env True ''p'' ''v'' (take 2 example_books)
            \<lparr>browser = Some 1, browserContext = Some 2\<rparr> [] (world0 ())) =
       \<lparr>browser = None, browserContext = None\<rparr>"
    by code_simp
  have 2: "success (fst (snd (processBook example_env True ''p'' ''v''
                           \<lparr>title = ''Notes'', url = ''https://docs.redhat.com/b3''\<rparr>
                           \<lparr>browser = Some 1, browserContext = Some 2\<rparr> (world0 ()))))"
    by code_simp
  have 3: "launched (snd (example_run True)) = 1"
    by code_simp
  show ?thesis unfolding example_run_ledger using 1 2 3 by simp
qed

subsection \<open>The abandoned promise of the headed mode\<close>

text \<open>
  Claim C1, on the code. The listing page shows three books and the run is headed. The
  selection of the PDF format fails for the first book, so the promise of
  \<^verbatim>\<open>context.waitForEvent('page')\<close>, created just before, is never awaited; it rejects, and
  the process ends. The loop over the books was reached, yet the run leaves no ledger at
  all: no result for any of the three books. With the same environment the headless
  mode, which creates no such promise, ends with one result for each book.
\<close>

theorem abandoned_promise_leaves_no_ledger:
  "fst (discover selection_failure_env ''https://docs.redhat.com/en/documentation/p/v'' ''p'' ''v'' False
          (world0 ())) = Inr example_books
   \<and> length example_books = 3
   \<and> fst selection_failure_run = None
   \<and> exited (snd selection_failure_run)
   \<and> abandoned (snd selection_failure_run) = 1
   \<and> map_option (map title)
        (fst (scrapeAndDownloadDocs selection_failure_env (\<lambda>results. ''[]'')
                ''https://docs.redhat.com/en/documentation/p/v'' ''p'' ''v'' True (world0 ()))) =
       Some [''A/B:C*D'', ''Guide'', ''Notes'']"
  by code_simp

text \<open>
  Claim C10, on the code. In the same headed run the failure of the first book is
  critical: its message contains "Target closed", the result that the iteration builds
  for it has \<open>criticalError\<close> true and no success, and the browser and the context are
  closed and set to null. Closing the context rejects the abandoned promise and the
  process ends: the loop stops with no result pushed, the two books after the failure
  are never processed and get no result (the run has no ledger), where the claim has a
  failed result appended for each. The browser was launched once.
\<close>

theorem critical_selection_failure_ends_run:
  "fst (processBook selection_failure_env False ''p'' ''v'' (example_books ! 0)
          \<lparr>browser = Some 1, browserContext = Some 2\<rparr> (world0 ())) =
     \<lparr>browser = None, browserContext = None\<rparr>
   \<and> fst (snd (processBook selection_failure_env False ''p'' ''v'' (example_books ! 0)
          \<lparr>browser = Some 1, browserContext = Some 2\<rparr> (world0 ()))) =
     \<lparr>title = ''A/B:C*D'', url = ''https://docs.redhat.com/b1'', pdfUrl = None, downloadPath = None,
       success = False,
       error = Some ''All 2 attempts failed for selecting PDF format for A/B:C*D: page.selectOption: Target closed'',
       criticalError = Some True\<rparr>
   \<and> abandoned (snd (snd (processBook selection_failure_env False ''p'' ''v'' (example_books ! 0)
          \<lparr>browser = Some 1, browserContext = Some 2\<rparr> (world0 ())))) = 1
   \<and> fst (processBooks selection_failure_env False ''p'' ''v'' example_books
          \<lparr>browser = Some 1, browserContext = Some 2\<rparr> [] (world0 ())) =
     \<lparr>browser = None, browserContext = None\<rparr>
   \<and> fst (snd (processBooks selection_failure_env False ''p'' ''v'' example_books
          \<lparr>browser = Some 1, browserContext = Some 2\<rparr> [] (world0 ()))) = []
   \<and> exited (snd (snd (processBooks selection_failure_env False ''p'' ''v'' example_books
          \<lparr>browser = Some 1, browserContext = Some 2\<rparr> [] (world0 ()))))
   \<and> fst selection_failure_run = None
   \<and> launched (snd selection_failure_run) = 1"
  by code_simp

subsection \<open>The headless mode finds the PDF link\<close>

lemma parse_atoms_escapeRegExp:
  "parse_atoms (escapeRegExp s @ rest) = map_option ((@) (map Lit s)) (parse_atoms rest)"
proof (induction s)
  case Nil
  then show ?case by (simp add: escapeRegExp_def option.map_ident)
next
  case (Cons c s)
  have IH: "parse_atoms (escapeRegExp s @ rest) = map_option ((@) (map Lit s)) (parse_atoms rest)"
    using Cons.IH .
  show ?case
  proof (cases "c \<in> set syntax_chars")
    case True
    then have "escapeRegExp (c # s) @ rest = backslash # c # (escapeRegExp s @ rest)"
      by (simp add: escapeRegExp_def)
    then show ?thesis using True IH
      by (simp add: option.map_comp comp_def)
  next
    case False
    then have e: "escapeRegExp (c # s) @ rest = c # (escapeRegExp s @ rest)"
      by (simp add: escapeRegExp_def)
    from False have "c \<noteq> backslash" "c \<noteq> CHR ''[''"
      by (auto simp: syntax_chars_def)
    then show ?thesis using False IH e
      by (simp add: option.map_comp comp_def)
  qed
qed

lemma parse_atoms_literal:
  "c \<notin> set syntax_chars \<Longrightarrow> parse_atoms (c # rest) = map_option ((#) (Lit c)) (parse_atoms rest)"
  by (auto simp: syntax_chars_def)

lemma parse_atoms_escaped:
  "c \<in> set syntax_chars \<Longrightarrow> parse_atoms (CHR 0x5C # c # rest) = map_option ((#) (Lit c)) (parse_atoms rest)"
  by (simp add: backslash_def)

lemma parse_atoms_class:
  "parse_atoms (CHR ''['' # CHR ''^'' # CHR 0x22 # CHR '']'' # CHR ''+'' # rest) =
     map_option ((#) (PlusNot double_quote)) (parse_atoms rest)"
  by (simp add: backslash_def double_quote_def syntax_chars_def)

lemma pdfLinkRegex:
  "RegExp_i (pdfLink_source (escapeRegExp productName) (escapeRegExp productVersion)) =
     Some (map Lit (pdf_prefix productName productVersion) @ PlusNot double_quote # map Lit ''.pdf'')"
proof -
  let ?tail = "''/pdf/[^'' @ [double_quote] @ '']+'' @ [backslash] @ ''.pdf''"
  have t: "parse_atoms ?tail = Some (map Lit ''/pdf/'' @ PlusNot double_quote # map Lit ''.pdf'')"
    by (simp add: parse_atoms_class parse_atoms_literal parse_atoms_escaped syntax_chars_def backslash_def
                  double_quote_def
             del: parse_atoms.simps)
       (simp add: double_quote_def)?
  have v: "parse_atoms (escapeRegExp productVersion @ ?tail) =
           Some (map Lit productVersion @ map Lit ''/pdf/'' @ PlusNot double_quote # map Lit ''.pdf'')"
    unfolding parse_atoms_escapeRegExp t by simp
  have n: "parse_atoms (escapeRegExp productName @ ''/'' @ escapeRegExp productVersion @ ?tail) =
           Some (map Lit productName @ map Lit ''/'' @ map Lit productVersion @ map Lit ''/pdf/'' @ PlusNot double_quote # map Lit ''.pdf'')"
    unfolding parse_atoms_escapeRegExp using v
    by (simp add: parse_atoms_literal syntax_chars_def backslash_def del: parse_atoms.simps)
  let ?inner = "''https://docs'' @ [backslash] @ ''.redhat'' @ [backslash] @ ''.com/en/documentation/''
     @ escapeRegExp productName @ ''/'' @ escapeRegExp productVersion @ ?tail"
  have h: "parse_atoms ?inner =
     Some (map Lit ''https://docs.redhat.com/en/documentation/'' @ map Lit productName @ map Lit ''/'' @ map Lit productVersion @ map Lit ''/pdf/'' @ PlusNot double_quote # map Lit ''.pdf'')"
    using n
    by (simp add: parse_atoms_literal parse_atoms_escaped syntax_chars_def backslash_def del: parse_atoms.simps)
  have s: "pdfLink_source (escapeRegExp productName) (escapeRegExp productVersion) = CHR ''('' # ?inner @ '')''"
    by (simp add: pdfLink_source_def)
  show ?thesis
    unfolding s RegExp_i_def using h by (simp add: pdf_prefix_def butlast_append)
qed

lemma match_here_literals:
  "match_here (map Lit p @ atoms) s =
     (if length p \<le> length s \<and> ci_eq (take (length p) s) p
      then map_option ((+) (length p)) (match_here atoms (drop (length p) s)) else None)"
proof (induction p arbitrary: s)
  case Nil
  then show ?case by (cases "match_here atoms s") (simp_all add: ci_eq_def)
next
  case (Cons c p)
  show ?case
  proof (cases s)
    case Nil
    then show ?thesis by simp
  next
    case (Cons d ds)
    then show ?thesis
      using Cons.IH [of ds]
      by (auto simp: ci_eq_def option.map_comp comp_def)
  qed
qed

lemma first_some_None: "first_some xs = None \<longleftrightarrow> (\<forall>x\<in>set xs. x = None)"
  by (induction xs rule: first_some.induct) auto

lemma first_some_downto_Some:
  "first_some (map f (rev [1..<Suc n])) = Some y \<longleftrightarrow>
     (\<exists>k. 1 \<le> k \<and> k \<le> n \<and> f k = Some y \<and> (\<forall>k'. k < k' \<and> k' \<le> n \<longrightarrow> f k' = None))"
proof (induction n)
  case 0
  then show ?case by simp
next
  case (Suc n)
  show ?case
  proof (cases "f (Suc n)")
    case None
    have "first_some (map f (rev [1..<Suc (Suc n)])) = first_some (map f (rev [1..<Suc n]))"
      using None by simp
    also have "\<dots> = Some y \<longleftrightarrow>
       (\<exists>k. 1 \<le> k \<and> k \<le> n \<and> f k = Some y \<and> (\<forall>k'. k < k' \<and> k' \<le> n \<longrightarrow> f k' = None))"
      by (rule Suc.IH)
    also have "\<dots> \<longleftrightarrow>
       (\<exists>k. 1 \<le> k \<and> k \<le> Suc n \<and> f k = Some y \<and> (\<forall>k'. k < k' \<and> k' \<le> Suc n \<longrightarrow> f k' = None))"
      using None by (metis le_Suc_eq option.distinct(1))
    finally show ?thesis .
  next
    case (Some z)
    have "first_some (map f (rev [1..<Suc (Suc n)])) = Some z"
      using Some by simp
    moreover have "(\<exists>k. 1 \<le> k \<and> k \<le> Suc n \<and> f k = Some y \<and> (\<forall>k'. k < k' \<and> k' \<le> Suc n \<longrightarrow> f k' = None)) \<longleftrightarrow> z = y"
    proof
      assume "\<exists>k. 1 \<le> k \<and> k \<le> Suc n \<and> f k = Some y \<and> (\<forall>k'. k < k' \<and> k' \<le> Suc n \<longrightarrow> f k' = None)"
      then obtain k where k: "k \<le> Suc n" "f k = Some y" "\<forall>k'. k < k' \<and> k' \<le> Suc n \<longrightarrow> f k' = None" by blast
      have "k = Suc n"
      proof (rule ccontr)
        assume "k \<noteq> Suc n"
        with k(1) have "k < Suc n" by simp
        with k(3) have "f (Suc n) = None" by simp
        with Some show False by simp
      qed
      with k(2) Some show "z = y" by simp
    next
      assume "z = y"
      with Some show "\<exists>k. 1 \<le> k \<and> k \<le> Suc n \<and> f k = Some y \<and> (\<forall>k'. k < k' \<and> k' \<le> Suc n \<longrightarrow> f k' = None)"
        by (intro exI [of _ "Suc n"]) auto
    qed
    ultimately show ?thesis by simp
  qed
qed

lemma first_some_downto_None:
  "first_some (map f (rev [1..<Suc n])) = None \<longleftrightarrow> (\<forall>k. 1 \<le> k \<and> k \<le> n \<longrightarrow> f k = None)"
  by (auto simp: first_some_None)

lemma match_here_lits: "match_here (map Lit e) s = (if lit_at e s 0 then Some (length e) else None)"
  using match_here_literals [of e "[]" s] by (simp add: lit_at_def)

lemma if_Some_None_eq:
  "((if c then Some a else None) = Some m) = (c \<and> m = a)"
  "((if c then Some a else None) = None) = (\<not> c)"
  by auto

lemma match_here_plus:
  "match_here (PlusNot q # map Lit e) s =
     first_some (map (\<lambda>k. if lit_at e s k then Some (k + length e) else None)
                  (rev [1..<Suc (length (takeWhile (\<lambda>d. canonicalize d \<noteq> canonicalize q) s))]))"
proof -
  have f: "(\<lambda>k. map_option ((+) k) (match_here (map Lit e) (drop k s))) =
           (\<lambda>k. if lit_at e s k then Some (k + length e) else None)"
    by (rule ext) (simp add: match_here_lits lit_at_def)
  show ?thesis
    by (simp only: match_here.simps Let_def f)
qed

lemma match_here_plus_Some:
  "match_here (PlusNot q # map Lit e) s = Some m \<longleftrightarrow>
     (\<exists>k. 1 \<le> k \<and> k \<le> length (takeWhile (\<lambda>d. canonicalize d \<noteq> canonicalize q) s) \<and>
          lit_at e s k \<and> m = k + length e \<and>
          (\<forall>k'. k < k' \<and> k' \<le> length (takeWhile (\<lambda>d. canonicalize d \<noteq> canonicalize q) s) \<longrightarrow> \<not> lit_at e s k'))"
  unfolding match_here_plus first_some_downto_Some if_Some_None_eq by blast

lemma match_here_plus_None:
  "match_here (PlusNot q # map Lit e) s = None \<longleftrightarrow>
     (\<forall>k. 1 \<le> k \<and> k \<le> length (takeWhile (\<lambda>d. canonicalize d \<noteq> canonicalize q) s) \<longrightarrow> \<not> lit_at e s k)"
  unfolding match_here_plus first_some_downto_None if_Some_None_eq by blast

lemma ci_eq_length: "ci_eq a b \<Longrightarrow> length a = length b"
  unfolding ci_eq_def by (metis length_map)

lemma ci_eq_refl [simp]: "ci_eq a a"
  by (simp add: ci_eq_def)

lemma canonicalize_double_quote: "canonicalize d = canonicalize double_quote \<longleftrightarrow> d = double_quote"
proof -
  have q: "canonicalize double_quote = double_quote"
    by (simp add: canonicalize_def double_quote_def)
  have "canonicalize d = double_quote \<Longrightarrow> d = double_quote"
    unfolding canonicalize_def double_quote_def
    by (simp split: option.splits if_splits)
  with q show ?thesis by auto
qed

lemma run_length:
  assumes "double_quote \<notin> set r"
  shows "takeWhile (\<lambda>d. canonicalize d \<noteq> canonicalize double_quote) (r @ rest) =
         r @ takeWhile (\<lambda>d. canonicalize d \<noteq> canonicalize double_quote) rest"
  using assms by (intro takeWhile_append2) (auto simp: canonicalize_double_quote)

lemma match_here_pdfLink:
  "match_here (pdfLink_atoms n v) s =
     (if length (pdf_prefix n v) \<le> length s \<and> ci_eq (take (length (pdf_prefix n v)) s) (pdf_prefix n v)
      then map_option ((+) (length (pdf_prefix n v)))
             (match_here (PlusNot double_quote # map Lit ''.pdf'') (drop (length (pdf_prefix n v)) s))
      else None)"
  unfolding pdfLink_atoms_def by (rule match_here_literals)

lemma take_add3: "take (a + (b + c)) s = take a s @ take b (drop a s) @ take c (drop b (drop a s))"
  by (simp only: take_add)

lemma match_here_shape:
  assumes "match_here (pdfLink_atoms n v) s = Some m"
  shows "m \<le> length s \<and> pdf_link_shape n v (take m s)"
proof -
  let ?P = "pdf_prefix n v"
  let ?s' = "drop (length ?P) s"
  let ?run = "takeWhile (\<lambda>d. canonicalize d \<noteq> canonicalize double_quote) ?s'"
  from assms have len: "length ?P \<le> length s" and p: "ci_eq (take (length ?P) s) ?P"
    and "\<exists>m'. match_here (PlusNot double_quote # map Lit ''.pdf'') ?s' = Some m' \<and> m = length ?P + m'"
    unfolding match_here_pdfLink by (auto split: if_splits)
  then obtain k where k: "1 \<le> k" "k \<le> length ?run" "lit_at ''.pdf'' ?s' k" and m: "m = length ?P + (k + length ''.pdf'')"
    unfolding match_here_plus_Some by auto
  have kl: "k + length ''.pdf'' \<le> length ?s'" and e: "ci_eq (take (length ''.pdf'') (drop k ?s')) ''.pdf''"
    using k(3) by (auto simp: lit_at_def)
  have ml: "m \<le> length s" using m kl len by simp
  have split: "take m s = take (length ?P) s @ take k ?s' @ take (length ''.pdf'') (drop k ?s')"
    unfolding m by (rule take_add3)
  have "take k ?s' = take k ?run"
    using k(2) by (metis takeWhile_dropWhile_id take_append diff_is_0_eq' take_0 append_Nil2)
  then have "set (take k ?s') \<subseteq> set ?run"
    by (metis set_take_subset)
  then have nq: "double_quote \<notin> set (take k ?s')"
    by (auto dest!: set_takeWhileD)
  have ne: "take k ?s' \<noteq> []" using k(1) kl by auto
  show ?thesis
    unfolding pdf_link_shape_def using ml split p nq ne e by blast
qed

lemma shape_match_here:
  assumes "pdf_link_shape n v u"
  shows "\<exists>m. match_here (pdfLink_atoms n v) (u @ post) = Some m"
proof -
  let ?P = "pdf_prefix n v"
  from assms obtain p r e where u: "u = p @ r @ e" and p: "ci_eq p ?P" and r: "r \<noteq> []" "double_quote \<notin> set r"
    and e: "ci_eq e ''.pdf''"
    unfolding pdf_link_shape_def by blast
  have lp: "length p = length ?P" using p by (rule ci_eq_length)
  have le: "length e = length ''.pdf''" using ci_eq_length [OF e] by simp
  let ?s' = "r @ e @ post"
  have d: "drop (length ?P) (u @ post) = ?s'" "take (length ?P) (u @ post) = p"
    unfolding u using lp by simp_all
  have "length r \<le> length (takeWhile (\<lambda>d. canonicalize d \<noteq> canonicalize double_quote) ?s')"
    unfolding run_length [OF r(2)] by simp
  moreover have "lit_at ''.pdf'' ?s' (length r)"
    using e le by (simp add: lit_at_def)
  moreover have "1 \<le> length r" using r(1) by (cases r) auto
  ultimately have "match_here (PlusNot double_quote # map Lit ''.pdf'') ?s' \<noteq> None"
    unfolding match_here_plus_None by blast
  then show ?thesis
    unfolding match_here_pdfLink d using p lp u by auto
qed

lemma match_here_None_iff:
  "match_here (pdfLink_atoms n v) s = None \<longleftrightarrow>
     (\<forall>x. pdf_link_shape n v x \<longrightarrow> take (length x) s \<noteq> x)"
proof
  assume none: "match_here (pdfLink_atoms n v) s = None"
  show "\<forall>x. pdf_link_shape n v x \<longrightarrow> take (length x) s \<noteq> x"
  proof (intro allI impI notI)
    fix x assume x: "pdf_link_shape n v x" "take (length x) s = x"
    then have "s = x @ drop (length x) s" by (metis append_take_drop_id)
    with shape_match_here [OF x(1), of "drop (length x) s"] none show False by simp
  qed
next
  assume a: "\<forall>x. pdf_link_shape n v x \<longrightarrow> take (length x) s \<noteq> x"
  show "match_here (pdfLink_atoms n v) s = None"
  proof (rule ccontr)
    assume "match_here (pdfLink_atoms n v) s \<noteq> None"
    then obtain m where m: "match_here (pdfLink_atoms n v) s = Some m" by auto
    from match_here_shape [OF m] a show False
      by (metis length_take min.absorb2)
  qed
qed

lemma regex_match_None:
  "regex_match atoms s = None \<longleftrightarrow> (\<forall>i\<le>length s. match_here atoms (drop i s) = None)"
proof (induction s)
  case Nil
  then show ?case by simp
next
  case (Cons c cs)
  have "(\<forall>i\<le>length (c # cs). match_here atoms (drop i (c # cs)) = None) \<longleftrightarrow>
        match_here atoms (c # cs) = None \<and> (\<forall>i\<le>length cs. match_here atoms (drop i cs) = None)"
  proof
    assume a: "\<forall>i\<le>length (c # cs). match_here atoms (drop i (c # cs)) = None"
    then have "match_here atoms (drop 0 (c # cs)) = None" by blast
    moreover have "\<forall>i\<le>length cs. match_here atoms (drop i cs) = None"
    proof (intro allI impI)
      fix i assume "i \<le> length cs"
      with a have "match_here atoms (drop (Suc i) (c # cs)) = None" by auto
      then show "match_here atoms (drop i cs) = None" by simp
    qed
    ultimately show "match_here atoms (c # cs) = None \<and> (\<forall>i\<le>length cs. match_here atoms (drop i cs) = None)"
      by simp
  next
    assume a: "match_here atoms (c # cs) = None \<and> (\<forall>i\<le>length cs. match_here atoms (drop i cs) = None)"
    show "\<forall>i\<le>length (c # cs). match_here atoms (drop i (c # cs)) = None"
    proof (intro allI impI)
      fix i assume "i \<le> length (c # cs)"
      with a show "match_here atoms (drop i (c # cs)) = None" by (cases i) auto
    qed
  qed
  with Cons.IH show ?case by (auto split: option.splits)
qed

lemma regex_match_first:
  assumes "\<forall>j<i. match_here atoms (drop j s) = None" and "i \<le> length s"
    and "match_here atoms (drop i s) = Some m"
  shows "regex_match atoms s = Some (take m (drop i s))"
  using assms
proof (induction s arbitrary: i)
  case Nil
  then show ?case by simp
next
  case (Cons c cs)
  show ?case
  proof (cases i)
    case 0
    with Cons.prems show ?thesis by simp
  next
    case (Suc i')
    with Cons.prems have none: "match_here atoms (c # cs) = None" by force
    have "\<forall>j<i'. match_here atoms (drop j cs) = None"
    proof (intro allI impI)
      fix j assume "j < i'"
      with Cons.prems(1) Suc have "match_here atoms (drop (Suc j) (c # cs)) = None" by blast
      then show "match_here atoms (drop j cs) = None" by simp
    qed
    from Cons.IH [OF this] Cons.prems(2,3) Suc none show ?thesis by simp
  qed
qed

lemma regex_match_Some:
  assumes "regex_match atoms s = Some u"
  shows "\<exists>i m. i \<le> length s \<and> match_here atoms (drop i s) = Some m \<and> u = take m (drop i s)"
  using assms
proof (induction s)
  case Nil
  then show ?case by auto
next
  case (Cons c cs)
  show ?case
  proof (cases "match_here atoms (c # cs)")
    case (Some m)
    with Cons.prems have "u = take m (drop 0 (c # cs))" by simp
    with Some show ?thesis by (intro exI [of _ 0] exI [of _ m]) simp
  next
    case None
    with Cons.prems have "regex_match atoms cs = Some u" by simp
    from Cons.IH [OF this] obtain i m where "i \<le> length cs" "match_here atoms (drop i cs) = Some m"
      "u = take m (drop i cs)" by blast
    then show ?thesis by (intro exI [of _ "Suc i"] exI [of _ m]) simp
  qed
qed

lemma match_here_exact:
  assumes r: "r \<noteq> []" "double_quote \<notin> set r" and rest: "rest = [] \<or> hd rest = double_quote"
  shows "match_here (pdfLink_atoms n v) (pdf_prefix n v @ r @ ''.pdf'' @ rest) =
           Some (length (pdf_prefix n v @ r @ ''.pdf''))"
proof -
  let ?s' = "r @ ''.pdf'' @ rest"
  let ?run = "takeWhile (\<lambda>d. canonicalize d \<noteq> canonicalize double_quote) ?s'"
  have tw: "takeWhile (\<lambda>d. canonicalize d \<noteq> canonicalize double_quote) rest = []"
    using rest by (cases rest) auto
  have "double_quote \<notin> set (r @ ''.pdf'')"
    using r(2) by (simp add: double_quote_def)
  from run_length [OF this, of rest] have run: "?run = r @ ''.pdf''"
    using tw by simp
  have 1: "1 \<le> length r" using r(1) by (cases r) auto
  have 2: "length r \<le> length ?run" unfolding run by simp
  have 3: "lit_at ''.pdf'' ?s' (length r)" by (simp add: lit_at_def)
  have 4: "\<forall>k'. length r < k' \<and> k' \<le> length ?run \<longrightarrow> \<not> lit_at ''.pdf'' ?s' k'"
  proof (intro allI impI)
    fix k' assume a: "length r < k' \<and> k' \<le> length ?run"
    then obtain j where j: "k' = length r + j" "1 \<le> j" "j \<le> 4"
      unfolding run by (auto intro: that [of "k' - length r"])
    then consider "j = 1" | "j = 2" | "j = 3" | "j = 4" by linarith
    then show "\<not> lit_at ''.pdf'' ?s' k'"
    proof cases
      case 1
      then show ?thesis unfolding j(1) lit_at_def by (simp add: ci_eq_def canonicalize_def)
    next
      case 2
      then show ?thesis unfolding j(1) lit_at_def by (simp add: ci_eq_def canonicalize_def)
    next
      case 3
      then show ?thesis unfolding j(1) lit_at_def by (simp add: ci_eq_def canonicalize_def)
    next
      case 4
      then show ?thesis unfolding j(1) lit_at_def using rest
        by (cases rest) (auto simp: ci_eq_def canonicalize_def double_quote_def)
    qed
  qed
  have "match_here (PlusNot double_quote # map Lit ''.pdf'') ?s' = Some (length r + length ''.pdf'')"
    unfolding match_here_plus_Some using 1 2 3 4 by blast
  then show ?thesis
    unfolding match_here_pdfLink by simp
qed

lemma regex_match_no_shape:
  "regex_match (pdfLink_atoms n v) s = None \<longleftrightarrow>
     (\<forall>pre x post. s = pre @ x @ post \<longrightarrow> \<not> pdf_link_shape n v x)"
proof
  assume none: "regex_match (pdfLink_atoms n v) s = None"
  show "\<forall>pre x post. s = pre @ x @ post \<longrightarrow> \<not> pdf_link_shape n v x"
  proof (intro allI impI notI)
    fix pre x post assume s: "s = pre @ x @ post" and x: "pdf_link_shape n v x"
    have "length pre \<le> length s" using s by simp
    with none have "match_here (pdfLink_atoms n v) (drop (length pre) s) = None"
      unfolding regex_match_None by blast
    moreover have "take (length x) (drop (length pre) s) = x" using s by simp
    ultimately show False using x unfolding match_here_None_iff by blast
  qed
next
  assume a: "\<forall>pre x post. s = pre @ x @ post \<longrightarrow> \<not> pdf_link_shape n v x"
  show "regex_match (pdfLink_atoms n v) s = None"
    unfolding regex_match_None match_here_None_iff
  proof (intro allI impI notI)
    fix i x assume "i \<le> length s" and x: "pdf_link_shape n v x" and t: "take (length x) (drop i s) = x"
    have "s = take i s @ x @ drop (length x) (drop i s)"
      using t by (metis append_take_drop_id)
    with a x show False by blast
  qed
qed

text \<open>
  Claim C8, amended. In the headless mode the product name and version are escaped, so
  the expression built is the literal prefix
  \<^verbatim>\<open>https://docs.redhat.com/en/documentation/<productName>/<productVersion>/pdf/\<close>, one or
  more characters other than a double quote, and \<^verbatim>\<open>.pdf\<close>. For a product name and version
  of ASCII characters: given markup in which that prefix, a non-empty text \<open>r\<close> without
  double quote and \<^verbatim>\<open>.pdf\<close> are directly followed by a double quote or the end of the
  markup, and in which no text of the shape starts earlier, the locator returns exactly
  that address (for \<^verbatim>\<open>prod\<close>, \<^verbatim>\<open>1.0\<close> and \<^verbatim>\<open>guide\<close>:
  \<^verbatim>\<open>https://docs.redhat.com/en/documentation/prod/1.0/pdf/guide.pdf\<close>). Given markup no
  part of which has the shape, it fails with the message
  \<^verbatim>\<open>Regex failed to find specific PDF link for <title>.\<close>
\<close>

theorem locate_headless_pattern:
  assumes "content env bookPage (ext w) = (Inr markup, e)"
    and "\<forall>c\<in>set productName. is_ascii c"
    and "\<forall>c\<in>set productVersion. is_ascii c"
  shows "(\<forall>pre r post.
            markup = pre @ pdf_prefix productName productVersion @ r @ ''.pdf'' @ post \<and>
            r \<noteq> [] \<and> double_quote \<notin> set r \<and> (post = [] \<or> hd post = double_quote) \<and>
            (\<forall>i<length pre. \<forall>x. pdf_link_shape productName productVersion x \<longrightarrow>
                                  take (length x) (drop i markup) \<noteq> x) \<longrightarrow>
            locate_headless env productName productVersion bookPage b w =
              (Inr (pdf_prefix productName productVersion @ r @ ''.pdf''), w\<lparr>ext := e\<rparr>))
       \<and> ((\<forall>pre x post. markup = pre @ x @ post \<longrightarrow> \<not> pdf_link_shape productName productVersion x) \<longrightarrow>
            locate_headless env productName productVersion bookPage b w =
              (Inl (''Regex failed to find specific PDF link for '' @ title b @ ''.''), w\<lparr>ext := e\<rparr>))
       \<and> RegExp_i (pdfLink_source (escapeRegExp productName) (escapeRegExp productVersion)) =
            Some (map Lit (pdf_prefix productName productVersion) @ PlusNot double_quote # map Lit ''.pdf'')"
proof -
  let ?atoms = "pdfLink_atoms productName productVersion"
  have re: "RegExp_i (pdfLink_source (escapeRegExp productName) (escapeRegExp productVersion)) = Some ?atoms"
    by (simp add: pdfLinkRegex pdfLink_atoms_def)
  have loc: "locate_headless env productName productVersion bookPage b w =
        (case regex_match ?atoms markup of
           Some m \<Rightarrow> if m \<noteq> [] then (Inr m, w\<lparr>ext := e\<rparr>)
                     else (Inl (''Regex failed to find specific PDF link for '' @ title b @ ''.''), w\<lparr>ext := e\<rparr>)
         | None \<Rightarrow> (Inl (''Regex failed to find specific PDF link for '' @ title b @ ''.''), w\<lparr>ext := e\<rparr>))"
    using assms(1) by (simp add: locate_headless_def lift_def re Let_def)
  have 1: "locate_headless env productName productVersion bookPage b w =
              (Inr (pdf_prefix productName productVersion @ r @ ''.pdf''), w\<lparr>ext := e\<rparr>)"
    if m: "markup = pre @ pdf_prefix productName productVersion @ r @ ''.pdf'' @ post"
      and r: "r \<noteq> []" "double_quote \<notin> set r" and post: "post = [] \<or> hd post = double_quote"
      and first: "\<forall>i<length pre. \<forall>x. pdf_link_shape productName productVersion x \<longrightarrow>
                                  take (length x) (drop i markup) \<noteq> x"
    for pre r post
  proof -
    let ?u = "pdf_prefix productName productVersion @ r @ ''.pdf''"
    have d: "drop (length pre) markup = ?u @ post" using m by simp
    have here: "match_here ?atoms (drop (length pre) markup) = Some (length ?u)"
      unfolding d using match_here_exact [OF r post, of productName productVersion] by simp
    have before: "\<forall>j<length pre. match_here ?atoms (drop j markup) = None"
      using first unfolding match_here_None_iff by blast
    have "length pre \<le> length markup" using m by simp
    from regex_match_first [OF before this here]
    have "regex_match ?atoms markup = Some ?u" unfolding d by simp
    then show ?thesis unfolding loc by simp
  qed
  have 2: "locate_headless env productName productVersion bookPage b w =
              (Inl (''Regex failed to find specific PDF link for '' @ title b @ ''.''), w\<lparr>ext := e\<rparr>)"
    if "\<forall>pre x post. markup = pre @ x @ post \<longrightarrow> \<not> pdf_link_shape productName productVersion x"
    using that unfolding loc regex_match_no_shape [symmetric] by simp
  have 3: "RegExp_i (pdfLink_source (escapeRegExp productName) (escapeRegExp productVersion)) =
            Some (map Lit (pdf_prefix productName productVersion) @ PlusNot double_quote # map Lit ''.pdf'')"
    by (rule pdfLinkRegex)
  from 1 2 3 show ?thesis by blast
qed

text \<open>
  Against claim C8 as stated: markup that contains
  \<^verbatim>\<open>https://docs.example.com/en/documentation/prod/1.0/pdf/guide.pdf\<close> has no match, since
  the host of the expression is \<^verbatim>\<open>docs.redhat.com\<close>; and markup that contains the address
  on that host, followed by more text up to a later \<^verbatim>\<open>.pdf\<close> with no double quote in
  between, yields the longer text, since the repetition is greedy.
\<close>

theorem locate_headless_other_host_counterexample:
  "fst (locate_headless
          (fixed_env [] (\<lambda>u. Inr ())
             (''<a href='' @ [double_quote] @ ''https://docs.example.com/en/documentation/prod/1.0/pdf/guide.pdf''
              @ [double_quote] @ ''>PDF</a>'')
             [] (RequestError []))
          ''prod'' ''1.0'' 3 \<lparr>title = ''Guide'', url = ''https://docs.example.com/guide''\<rparr> (world0 ())) =
     Inl ''Regex failed to find specific PDF link for Guide.''
   \<and> fst (locate_headless
          (fixed_env [] (\<lambda>u. Inr ())
             (''See https://docs.redhat.com/en/documentation/prod/1.0/pdf/guide.pdf or notes.pdf.'')
             [] (RequestError []))
          ''prod'' ''1.0'' 3 \<lparr>title = ''Guide'', url = ''https://docs.redhat.com/guide''\<rparr> (world0 ())) =
     Inr ''https://docs.redhat.com/en/documentation/prod/1.0/pdf/guide.pdf or notes.pdf''"
  by code_simp

theorem locate_headless_pattern_witness:
  "fst (locate_headless
          (fixed_env [] (\<lambda>u. Inr ())
             (''<a href='' @ [double_quote] @ ''https://docs.redhat.com/en/documentation/prod/1.0/pdf/guide.pdf''
              @ [double_quote] @ ''>PDF</a>'')
             [] (RequestError []))
          ''prod'' ''1.0'' 3 \<lparr>title = ''Guide'', url = ''https://docs.redhat.com/guide''\<rparr> (world0 ())) =
     Inr ''https://docs.redhat.com/en/documentation/prod/1.0/pdf/guide.pdf''
   \<and> fst (locate_headless
          (fixed_env [] (\<lambda>u. Inr ()) ''<p>No PDF for prod 1.0 here.</p>'' [] (RequestError []))
          ''prod'' ''1.0'' 3 \<lparr>title = ''Guide'', url = ''https://docs.redhat.com/guide''\<rparr> (world0 ())) =
     Inl ''Regex failed to find specific PDF link for Guide.''"
proof -
  let ?pre = "''<a href='' @ [double_quote]"
  let ?post = "[double_quote] @ ''>PDF</a>''"
  let ?m1 = "''<a href='' @ [double_quote] @ ''https://docs.redhat.com/en/documentation/prod/1.0/pdf/guide.pdf''
              @ [double_quote] @ ''>PDF</a>''"
  let ?m2 = "''<p>No PDF for prod 1.0 here.</p>''"
  let ?env1 = "fixed_env [] (\<lambda>u. Inr ()) ?m1 [] (RequestError [])"
  let ?env2 = "fixed_env [] (\<lambda>u. Inr ()) ?m2 [] (RequestError [])"
  let ?b = "\<lparr>title = ''Guide'', url = ''https://docs.redhat.com/guide''\<rparr>"
  have a1: "\<forall>c\<in>set ''prod''. is_ascii c"
    by (simp add: is_ascii_def)
  have a2: "\<forall>c\<in>set ''1.0''. is_ascii c"
    by (simp add: is_ascii_def)
  have c1: "content ?env1 3 (ext (world0 ())) = (Inr ?m1, ())"
    by (simp add: fixed_env_def)
  have c2: "content ?env2 3 (ext (world0 ())) = (Inr ?m2, ())"
    by (simp add: fixed_env_def)
  have m1: "?m1 = ?pre @ pdf_prefix ''prod'' ''1.0'' @ ''guide'' @ ''.pdf'' @ ?post"
    by (simp add: pdf_prefix_def)
  have "list_all (\<lambda>i. match_here (pdfLink_atoms ''prod'' ''1.0'') (drop i ?m1) = None) [0..<length ?pre]"
    by code_simp
  then have la: "\<forall>i\<in>set [0..<length ?pre]. match_here (pdfLink_atoms ''prod'' ''1.0'') (drop i ?m1) = None"
    by (simp only: list_all_iff)
  have first: "\<forall>i<length ?pre. \<forall>x. pdf_link_shape ''prod'' ''1.0'' x \<longrightarrow> take (length x) (drop i ?m1) \<noteq> x"
  proof (intro allI impI)
    fix i x assume i: "i < length ?pre" and x: "pdf_link_shape ''prod'' ''1.0'' x"
    from i have "i \<in> set [0..<length ?pre]" by (simp only: set_upt atLeastLessThan_iff) simp
    with la have "match_here (pdfLink_atoms ''prod'' ''1.0'') (drop i ?m1) = None" by blast
    with x show "take (length x) (drop i ?m1) \<noteq> x"
      unfolding match_here_None_iff by blast
  qed
  have r: "''guide'' \<noteq> [] \<and> double_quote \<notin> set ''guide'' \<and> (?post = [] \<or> hd ?post = double_quote)"
    by (simp add: double_quote_def)
  have "regex_match (pdfLink_atoms ''prod'' ''1.0'') ?m2 = None"
    by code_simp
  then have none: "\<forall>pre x post. ?m2 = pre @ x @ post \<longrightarrow> \<not> pdf_link_shape ''prod'' ''1.0'' x"
    unfolding regex_match_no_shape .
  from locate_headless_pattern [OF c1 a1 a2, where b = ?b] m1 r first
  have 1: "locate_headless ?env1 ''prod'' ''1.0'' 3 ?b (world0 ()) =
             (Inr (pdf_prefix ''prod'' ''1.0'' @ ''guide'' @ ''.pdf''), (world0 ())\<lparr>ext := ()\<rparr>)"
    by blast
  from locate_headless_pattern [OF c2 a1 a2, where b = ?b] none
  have 2: "locate_headless ?env2 ''prod'' ''1.0'' 3 ?b (world0 ()) =
             (Inl (''Regex failed to find specific PDF link for '' @ title ?b @ ''.''), (world0 ())\<lparr>ext := ()\<rparr>)"
    by blast
  show ?thesis unfolding 1 2 by (simp add: pdf_prefix_def)
qed

end
